theory Spec2Isabelle
  imports Main "HOL-Library.Word" "HOL-Library.List_Lexorder"
begin

section \<open>Go strings: byte sequences holding UTF-8 text\<close>

text \<open>
  The two streaming handlers of the repository are written in Go. A Go string is a
  sequence of bytes; \<open>len\<close> counts bytes and \<open>s[i:j]\<close> slices by byte offset. Text is
  stored in UTF-8, so a code point above U+007F occupies two to four bytes.
\<close>

type_synonym byte = "8 word"
type_synonym gostring = "byte list"

definition ascii :: "string \<Rightarrow> gostring" where
  "ascii s = map (\<lambda>c. of_nat (of_char c)) s"

definition utf8_rune :: "nat \<Rightarrow> gostring" where
  "utf8_rune r =
     (if r < 0x80 then [of_nat r]
      else if r < 0x800 then [of_nat (0xC0 + r div 64), of_nat (0x80 + r mod 64)]
      else if r < 0x10000 then
        [of_nat (0xE0 + r div 4096), of_nat (0x80 + (r div 64) mod 64), of_nat (0x80 + r mod 64)]
      else
        [of_nat (0xF0 + r div 262144), of_nat (0x80 + (r div 4096) mod 64),
         of_nat (0x80 + (r div 64) mod 64), of_nat (0x80 + r mod 64)])"

definition utf8 :: "nat list \<Rightarrow> gostring" where
  "utf8 rs = concat (map utf8_rune rs)"

text \<open>
  \<open>offsets k xss\<close> lists the byte offsets at which the pieces of \<open>xss\<close> start and end
  when they are laid out one after the other from offset \<open>k\<close>. For the encoded runes of
  a text these are the code point boundaries; for the fragments of a chunked text these
  are the fragment boundaries.
\<close>

fun offsets :: "nat \<Rightarrow> 'a list list \<Rightarrow> nat list" where
  "offsets k [] = [k]"
| "offsets k (xs # xss) = k # offsets (k + length xs) xss"

definition rune_boundaries :: "nat list \<Rightarrow> nat list" where
  "rune_boundaries rs = offsets 0 (map utf8_rune rs)"

definition fragment_boundaries :: "gostring list \<Rightarrow> nat list" where
  "fragment_boundaries fs = offsets 0 fs"

text \<open>\<open>content[i:end]\<close> for \<open>i \<le> end \<le> len(content)\<close>, the only way the handlers slice.\<close>

definition slice :: "gostring \<Rightarrow> nat \<Rightarrow> nat \<Rightarrow> gostring" where
  "slice s i e = take (e - i) (drop i s)"

text \<open>
  What \<open>json.Marshal\<close> makes of a string. Go's encoder walks the bytes with
  \<open>utf8.DecodeRuneInString\<close>; a byte at which no well-formed UTF-8 sequence starts is
  written as the escape of U+FFFD and the walk goes on one byte further. \<open>json_string s\<close>
  is the text a reader of the JSON gets back, in UTF-8: \<open>s\<close> with every such byte
  replaced by U+FFFD, the three bytes \<open>EF BF BD\<close>. (The escapes of quotes, control
  characters and the like decode to the characters they stand for.)
  \<open>rune_len b bs\<close> is the length of the well-formed sequence that starts with byte \<open>b\<close>
  followed by \<open>bs\<close>, and 0 when there is none.
\<close>

definition cont :: "byte \<Rightarrow> bool" where
  "cont c = (0x80 \<le> c \<and> c \<le> 0xBF)"

definition rune_len :: "byte \<Rightarrow> gostring \<Rightarrow> nat" where
  "rune_len b bs =
     (if b < 0x80 then 1
      else if 0xC2 \<le> b \<and> b \<le> 0xDF then
        (case bs of c1 # _ \<Rightarrow> if cont c1 then 2 else 0 | _ \<Rightarrow> 0)
      else if 0xE0 \<le> b \<and> b \<le> 0xEF then
        (case bs of
           c1 # c2 # _ \<Rightarrow>
             if (if b = 0xE0 then 0xA0 else 0x80) \<le> c1 \<and> c1 \<le> (if b = 0xED then 0x9F else 0xBF)
                \<and> cont c2
             then 3 else 0
         | _ \<Rightarrow> 0)
      else if 0xF0 \<le> b \<and> b \<le> 0xF4 then
        (case bs of
           c1 # c2 # c3 # _ \<Rightarrow>
             if (if b = 0xF0 then 0x90 else 0x80) \<le> c1 \<and> c1 \<le> (if b = 0xF4 then 0x8F else 0xBF)
                \<and> cont c2 \<and> cont c3
             then 4 else 0
         | _ \<Rightarrow> 0)
      else 0)"

function json_string :: "gostring \<Rightarrow> gostring" where
  "json_string [] = []"
| "json_string (b # bs) =
     (if rune_len b bs = 0 then [0xEF, 0xBF, 0xBD] @ json_string bs
      else (b # take (rune_len b bs - 1) bs) @ json_string (drop (rune_len b bs - 1) bs))"
  by pat_completeness auto
termination
  by (relation "measure length") auto

declare json_string.simps [simp del]

text \<open>
  Decimal digits of a natural number, as character codes. \<open>itoa\<close> is the verb \<open>%d\<close>
  of \<open>fmt.Sprintf\<close> on a non-negative integer.
\<close>

function decimal :: "nat \<Rightarrow> nat list" where
  "decimal n = (if n < 10 then [48 + n] else decimal (n div 10) @ [48 + n mod 10])"
  by pat_completeness auto
termination
  by (relation "measure id") auto

declare decimal.simps [simp del]

definition itoa :: "nat \<Rightarrow> gostring" where
  "itoa n = map of_nat (decimal n)"

definition itoa_int :: "int \<Rightarrow> gostring" where
  "itoa_int i = (if i < 0 then ascii ''-'' @ itoa (nat (- i)) else itoa (nat i))"


section \<open>Wire frames and the response writer\<close>

text \<open>
  One SSE frame is \<open>data: <json>\<close> followed by an empty line. The JSON object is modelled
  by its fields. A field of the object may be missing, \<open>null\<close>, or hold a value; the
  \<open>delta\<close> object holds \<open>reasoning_content\<close>, \<open>content\<close>, or nothing.
\<close>

datatype 'a field = Absent | Null | Val 'a

datatype delta = ReasoningContent gostring | Content gostring | EmptyDelta

record chunk =
  cid :: gostring
  cobject :: gostring
  ccreated :: "nat field"
  cmodel :: "gostring field"
  cindex :: nat
  cdelta :: delta
  cfinish_reason :: "gostring field"

text \<open>
  What a handler writes to the response body: a frame, the end sentinel
  \<open>data: [DONE]\<close>, or the plain text that \<open>http.Error\<close> prints.
\<close>

datatype sse = Data chunk | DoneSentinel | PlainText gostring

text \<open>
  The state a handler works on: the \<open>http.ResponseWriter\<close> (header map, status line,
  body written so far) and the number of calls made so far to the two ambient sources
  the helpers read, \<open>generateChunkID()\<close> and \<open>time.Now()\<close>.
\<close>

record state =
  headers :: "gostring \<rightharpoonup> gostring"
  status :: "nat option"
  written :: "sse list"
  id_calls :: nat
  clock_reads :: nat

text \<open>
  \<open>generateChunkID\<close> is called by the helpers but defined nowhere in the repository, and
  the clock is outside the program: both are parameters, the value returned by the k-th
  call.
\<close>

record env =
  generateChunkID :: "nat \<Rightarrow> gostring"
  unix_now :: "nat \<Rightarrow> nat"

definition init_state :: "nat \<Rightarrow> nat \<Rightarrow> state" where
  "init_state ids ticks =
     \<lparr>headers = Map.empty, status = None, written = [], id_calls = ids, clock_reads = ticks\<rparr>"

definition header_set :: "gostring \<Rightarrow> gostring \<Rightarrow> state \<Rightarrow> state" where
  "header_set k v st = st\<lparr>headers := (headers st)(k \<mapsto> v)\<rparr>"

text \<open>\<open>fmt.Fprintf(w, ...)\<close>: the first write sends the status line 200 if none was sent.\<close>

definition fprintf :: "sse \<Rightarrow> state \<Rightarrow> state" where
  "fprintf x st =
     st\<lparr>status := (case status st of None \<Rightarrow> Some 200 | Some c \<Rightarrow> Some c),
        written := written st @ [x]\<rparr>"

text \<open>\<open>http.Error(w, msg, code)\<close> of the Go standard library.\<close>

definition http_Error :: "gostring \<Rightarrow> nat \<Rightarrow> state \<Rightarrow> state" where
  "http_Error msg code st =
     (let st1 = header_set (ascii ''Content-Type'') (ascii ''text/plain; charset=utf-8'') st;
          st2 = header_set (ascii ''X-Content-Type-Options'') (ascii ''nosniff'') st1
      in st2\<lparr>status := Some code, written := written st2 @ [PlainText (msg @ ascii [CHR 0x0A])]\<rparr>)"

definition sse_headers :: "state \<Rightarrow> state" where
  "sse_headers st =
     header_set (ascii ''Connection'') (ascii ''keep-alive'')
       (header_set (ascii ''Cache-Control'') (ascii ''no-cache'')
         (header_set (ascii ''Content-Type'') (ascii ''text/event-stream'') st))"

fun frames_of :: "sse list \<Rightarrow> chunk list" where
  "frames_of [] = []"
| "frames_of (Data c # xs) = c # frames_of xs"
| "frames_of (_ # xs) = frames_of xs"

fun fragments_of :: "sse list \<Rightarrow> gostring list" where
  "fragments_of [] = []"
| "fragments_of (Data c # xs) =
     (case cdelta c of Content s \<Rightarrow> s # fragments_of xs | _ \<Rightarrow> fragments_of xs)"
| "fragments_of (_ # xs) = fragments_of xs"

definition has_finish_reason :: "chunk \<Rightarrow> bool" where
  "has_finish_reason c = (case cfinish_reason c of Val _ \<Rightarrow> True | _ \<Rightarrow> False)"


section \<open>The helper functions of the reasoning events guide\<close>

text \<open>
  \<open>sendReasoningEvent\<close>, \<open>sendContentEvent\<close> and \<open>sendDoneEvent\<close>. Each builds a chunk
  whose \<open>id\<close> is a fresh call of \<open>generateChunkID()\<close> and whose \<open>created\<close> is a fresh
  reading of the clock, marshals it with \<open>json.Marshal\<close> and writes it as one frame. A
  frame is modelled by what its JSON holds, so the strings that vary (the id, the status
  text, the content) are the marshalled ones; the constant strings are ASCII and are
  marshalled as they are.
\<close>

definition marshal_delta :: "delta \<Rightarrow> delta" where
  "marshal_delta d =
     (case d of
        ReasoningContent m \<Rightarrow> ReasoningContent (json_string m)
      | Content c \<Rightarrow> Content (json_string c)
      | EmptyDelta \<Rightarrow> EmptyDelta)"

definition mk_chunk :: "env \<Rightarrow> state \<Rightarrow> delta \<Rightarrow> gostring field \<Rightarrow> chunk" where
  "mk_chunk E st d fin =
     \<lparr>cid = json_string (generateChunkID E (id_calls st)),
      cobject = ascii ''chat.completion.chunk'',
      ccreated = Val (unix_now E (clock_reads st)),
      cmodel = Val (ascii ''ghostllm''),
      cindex = 0,
      cdelta = marshal_delta d,
      cfinish_reason = fin\<rparr>"

definition emit :: "env \<Rightarrow> delta \<Rightarrow> gostring field \<Rightarrow> state \<Rightarrow> state" where
  "emit E d fin st =
     (fprintf (Data (mk_chunk E st d fin)) st)
       \<lparr>id_calls := Suc (id_calls st), clock_reads := Suc (clock_reads st)\<rparr>"

definition sendReasoningEvent :: "env \<Rightarrow> gostring \<Rightarrow> state \<Rightarrow> state" where
  "sendReasoningEvent E message st = emit E (ReasoningContent message) Null st"

text \<open>
  The loop \<open>for i := 0; i < len(content); i += 50\<close> with \<open>end := min(i+50, len(content))\<close>,
  from loop index \<open>i\<close> on. The length of a string is far below the range of \<open>int\<close>, so
  \<open>i + 50\<close> does not overflow and the index is a natural number.
\<close>

function sendContentEvent_from :: "env \<Rightarrow> gostring \<Rightarrow> nat \<Rightarrow> state \<Rightarrow> state" where
  "sendContentEvent_from E content i st =
     (if i < length content
      then sendContentEvent_from E content (i + 50)
             (emit E (Content (slice content i (min (i + 50) (length content)))) Null st)
      else st)"
  by pat_completeness auto
termination
  by (relation "measure (\<lambda>(E, content, i, st). length content - i)") auto

declare sendContentEvent_from.simps [simp del]

definition sendContentEvent :: "env \<Rightarrow> gostring \<Rightarrow> state \<Rightarrow> state" where
  "sendContentEvent E content st = sendContentEvent_from E content 0 st"

definition sendDoneEvent :: "env \<Rightarrow> state \<Rightarrow> state" where
  "sendDoneEvent E st = fprintf DoneSentinel (emit E EmptyDelta (Val (ascii ''stop'')) st)"


section \<open>The chat handler flow of the reasoning events guide\<close>

text \<open>
  The eight numbered steps of the guide's new code flow. The collaborators
  \<open>obfuscate\<close>, \<open>client.CallCompletion\<close> and \<open>deobfuscate\<close> are not part of the repository;
  the flow is modelled on what they return: the size of the PII map, the pair
  \<open>(response, err)\<close> of the completion call, and the de-obfuscation function for that map.
  A \<open>nil\<close> response is \<open>None\<close>; reading \<open>response.Content\<close> from it is a nil
  dereference, which panics. The flow assigns \<open>err\<close> and never reads it. The unchecked
  type assertion \<open>w.(http.Flusher)\<close> panics when the writer has no flusher.
\<close>

datatype outcome = Returned | Panicked

record completion =
  response :: "gostring option"
  err :: bool

definition securing_msg :: gostring where
  "securing_msg = [0xF0, 0x9F, 0x94, 0x92] @ ascii '' Securing your request...''"

definition protected_prefix :: gostring where
  "protected_prefix = [0xF0, 0x9F, 0x9B, 0xA1, 0xEF, 0xB8, 0x8F] @ ascii '' Protected ''"

definition protected_msg :: "nat \<Rightarrow> gostring" where
  "protected_msg n = protected_prefix @ itoa n @ ascii '' sensitive items''"

definition waiting_msg :: gostring where
  "waiting_msg = [0xF0, 0x9F, 0xA4, 0x96] @ ascii '' Waiting for AI response...''"

definition restoring_msg :: gostring where
  "restoring_msg = [0xF0, 0x9F, 0x94, 0x93] @ ascii '' Restoring protected data...''"

definition new_code_flow ::
  "env \<Rightarrow> bool \<Rightarrow> nat \<Rightarrow> completion \<Rightarrow> (gostring \<Rightarrow> gostring) \<Rightarrow> state \<Rightarrow> outcome \<times> state"
where
  "new_code_flow E has_flusher pii_len call deobfuscate st0 =
     (let st1 = sse_headers st0 in
      if \<not> has_flusher then (Panicked, st1)
      else
        let st2 = sendReasoningEvent E securing_msg st1;
            st3 = (if pii_len > 0 then sendReasoningEvent E (protected_msg pii_len) st2 else st2);
            st4 = sendReasoningEvent E waiting_msg st3;
            st5 = sendReasoningEvent E restoring_msg st4
        in case response call of
             None \<Rightarrow> (Panicked, st5)
           | Some content \<Rightarrow>
               (Returned, sendDoneEvent E (sendContentEvent E (deobfuscate content) st5)))"


section \<open>The handler sketch of the reasoning stream guide\<close>

text \<open>
  \<open>handleChatCompletion\<close>. The stream id is generated once (\<open>completionID\<close>) and the two
  closures \<open>sendReasoning\<close> and \<open>sendContent\<close> print it into every frame. The frames are
  printed from a text template with the fields \<open>id\<close>, \<open>object\<close> and \<open>choices\<close> only.
  The id and the status text are printed as they are; the content goes through
  \<open>escapeJSON\<close>, which marshals it with \<open>json.Marshal\<close> and drops the quotes, so a
  reader of the frame gets \<open>json_string\<close> of the content.
  The collaborators \<open>generateID\<close>, \<open>detectPII\<close>, \<open>callMessenger\<close> and \<open>deobfuscate\<close>
  are not part of the repository and are modelled on what they return.
\<close>

definition mk_chunk2 :: "gostring \<Rightarrow> delta \<Rightarrow> chunk" where
  "mk_chunk2 completionID d =
     \<lparr>cid = completionID,
      cobject = ascii ''chat.completion.chunk'',
      ccreated = Absent,
      cmodel = Absent,
      cindex = 0,
      cdelta = d,
      cfinish_reason = Absent\<rparr>"

definition sendReasoning :: "gostring \<Rightarrow> gostring \<Rightarrow> state \<Rightarrow> state" where
  "sendReasoning completionID message st =
     fprintf (Data (mk_chunk2 completionID (ReasoningContent message))) st"

definition escapeJSON :: "gostring \<Rightarrow> gostring" where
  "escapeJSON s = json_string s"

definition sendContent :: "gostring \<Rightarrow> gostring \<Rightarrow> state \<Rightarrow> state" where
  "sendContent completionID content st =
     fprintf (Data (mk_chunk2 completionID (Content (escapeJSON content)))) st"

definition securing_msg2 :: gostring where
  "securing_msg2 = [0xF0, 0x9F, 0x94, 0x92] @ ascii '' Securing request...''"

definition protected_prefix2 :: gostring where
  "protected_prefix2 = [0xF0, 0x9F, 0x94, 0x92] @ ascii '' Protected ''"

definition protected_msg2 :: "int \<Rightarrow> gostring" where
  "protected_msg2 n = protected_prefix2 @ itoa_int n @ ascii '' sensitive items''"

definition handleChatCompletion ::
  "gostring \<Rightarrow> bool \<Rightarrow> int \<Rightarrow> gostring \<Rightarrow> (gostring \<Rightarrow> gostring) \<Rightarrow> state \<Rightarrow> state"
where
  "handleChatCompletion generatedID has_flusher pii_count llmResponse deobfuscate st0 =
     (let st1 = sse_headers st0 in
      if \<not> has_flusher
      then http_Error (ascii ''Streaming not supported'') 500 st1
      else
        let completionID = ascii ''chatcmpl-'' @ generatedID;
            st2 = sendReasoning completionID securing_msg2 st1;
            st3 = (if pii_count > 0
                   then sendReasoning completionID (protected_msg2 pii_count) st2 else st2);
            st4 = sendReasoning completionID waiting_msg st3;
            st5 = sendReasoning completionID restoring_msg st4;
            finalResponse = deobfuscate llmResponse;
            st6 = sendContent completionID finalResponse st5
        in fprintf DoneSentinel st6)"


definition starts_with :: "gostring \<Rightarrow> gostring \<Rightarrow> bool" where
  "starts_with p s = (take (length p) s = p)"


text \<open>
  The status text that the guide recommends for errors. Neither handler sends it; the
  predicate is used to say so.
\<close>

definition error_msg :: gostring where
  "error_msg = [0xE2, 0x9A, 0xA0, 0xEF, 0xB8, 0x8F] @ ascii '' Processing error occurred''"

definition is_error_frame :: "chunk \<Rightarrow> bool" where
  "is_error_frame c = (cdelta c = ReasoningContent error_msg)"

text \<open>
  The slices that the loop of \<open>sendContentEvent\<close> takes from loop index \<open>i\<close> on, as a
  list: the same recursion without the writer, used to state what the loop writes.
\<close>

function content_slices :: "gostring \<Rightarrow> nat \<Rightarrow> gostring list" where
  "content_slices content i =
     (if i < length content
      then slice content i (min (i + 50) (length content)) # content_slices content (i + 50)
      else [])"
  by pat_completeness auto
termination
  by (relation "measure (\<lambda>(content, i). length content - i)") auto

declare content_slices.simps [simp del]

text \<open>Concrete surroundings for the examples: a generator that numbers its calls.\<close>

definition fresh_ids_env :: env where
  "fresh_ids_env =
     \<lparr>generateChunkID = (\<lambda>k. ascii ''chatcmpl-'' @ itoa k), unix_now = (\<lambda>k. 1700000000)\<rparr>"

definition ok_completion :: "gostring \<Rightarrow> completion" where
  "ok_completion content = \<lparr>response = Some content, err = False\<rparr>"

definition failed_nil :: completion where
  "failed_nil = \<lparr>response = None, err = True\<rparr>"

definition failed_empty :: completion where
  "failed_empty = \<lparr>response = Some [], err = True\<rparr>"

section \<open>JavaScript values used by the plugins\<close>

text \<open>
  A JavaScript string is a sequence of UTF-16 code units. \<open>trim\<close> is
  \<open>String.prototype.trim\<close>: it removes white space and line terminators from both ends.
\<close>

type_synonym jsstring = "16 word list"

definition js :: "string \<Rightarrow> jsstring" where
  "js s = map (\<lambda>c. of_nat (of_char c)) s"

definition is_white_space :: "16 word \<Rightarrow> bool" where
  "is_white_space c =
     (c \<in> set [0x09, 0x0A, 0x0B, 0x0C, 0x0D, 0x20, 0xA0, 0x1680, 0x2028, 0x2029, 0x202F,
               0x205F, 0x3000, 0xFEFF]
      \<or> (0x2000 \<le> c \<and> c \<le> 0x200A))"

definition trim :: "jsstring \<Rightarrow> jsstring" where
  "trim s = rev (dropWhile is_white_space (rev (dropWhile is_white_space s)))"

definition js_itoa :: "int \<Rightarrow> jsstring" where
  "js_itoa i = (if i < 0 then js ''-'' @ map of_nat (decimal (nat (- i))) else map of_nat (decimal (nat i)))"

text \<open>ASCII lower-casing, as header names are compared.\<close>

definition lower_unit :: "16 word \<Rightarrow> 16 word" where
  "lower_unit c = (if 0x41 \<le> c \<and> c \<le> 0x5A then c + 0x20 else c)"

definition lowercase :: "jsstring \<Rightarrow> jsstring" where
  "lowercase s = map lower_unit s"

text \<open>
  The values that \<open>JSON.parse\<close> produces. An object is its property list in source
  order; when a key occurs twice the last occurrence is the property's value. The value
  \<open>undefined\<close> is \<open>None\<close> of \<open>json option\<close>. The plugins never compute with a number.
\<close>

datatype json =
    JNull
  | JBool bool
  | JNumber int
  | JString jsstring
  | JArray "json list"
  | JObject "(jsstring \<times> json) list"

datatype js_error = IOError | SyntaxError | TypeError | Error jsstring

fun truthy :: "json option \<Rightarrow> bool" where
  "truthy None = False"
| "truthy (Some JNull) = False"
| "truthy (Some (JBool b)) = b"
| "truthy (Some (JNumber n)) = (n \<noteq> 0)"
| "truthy (Some (JString s)) = (s \<noteq> [])"
| "truthy (Some (JArray _)) = True"
| "truthy (Some (JObject _)) = True"

text \<open>
  Property access by one of the names the plugins use (\<open>dymium\<close>, \<open>key\<close>, \<open>status\<close>,
  \<open>part\<close>, \<open>type\<close>, \<open>reasoning\<close>): only an object can have such a property.
  \<open>v.k\<close> throws a TypeError on \<open>null\<close> and \<open>undefined\<close>; \<open>v?.k\<close> gives
  \<open>undefined\<close> there.
\<close>

fun own_prop :: "json \<Rightarrow> jsstring \<Rightarrow> json option" where
  "own_prop (JObject kvs) k = map_of (rev kvs) k"
| "own_prop _ k = None"

fun get_prop :: "json option \<Rightarrow> jsstring \<Rightarrow> js_error + json option" where
  "get_prop None k = Inl TypeError"
| "get_prop (Some JNull) k = Inl TypeError"
| "get_prop (Some v) k = Inr (own_prop v k)"

fun opt_get :: "json option \<Rightarrow> jsstring \<Rightarrow> json option" where
  "opt_get None k = None"
| "opt_get (Some JNull) k = None"
| "opt_get (Some v) k = own_prop v k"

text \<open>
  The files the plugins read: the token file of dymium-provider and the \<open>auth.json\<close> of
  opencode, both under the home directory. \<open>readable\<close> is what
  \<open>fs.readFileSync(path, "utf-8")\<close> returns, \<open>None\<close> when it throws. \<open>JSON.parse\<close>
  is a parameter: the value a text parses to, \<open>None\<close> when it throws a SyntaxError.
\<close>

datatype path = TokenFile | AuthJson

record filesystem =
  existsSync :: "path \<Rightarrow> bool"
  readable :: "path \<Rightarrow> jsstring option"

type_synonym parser = "jsstring \<Rightarrow> json option"

definition readFileSync :: "filesystem \<Rightarrow> path \<Rightarrow> js_error + jsstring" where
  "readFileSync fs p = (case readable fs p of None \<Rightarrow> Inl IOError | Some s \<Rightarrow> Inr s)"

definition JSON_parse :: "parser \<Rightarrow> jsstring \<Rightarrow> js_error + json" where
  "JSON_parse parse s = (case parse s of None \<Rightarrow> Inl SyntaxError | Some v \<Rightarrow> Inr v)"


section \<open>The token-file plugin: \<open>resolveToken\<close> and its fetch wrapper\<close>

text \<open>
  A \<open>try\<close> block of \<open>resolveToken\<close> ends in one of three ways: it throws (\<open>Inl\<close>), it
  executes \<open>return v\<close> (\<open>Inr (Some v)\<close>), or it runs to its end (\<open>Inr None\<close>).
  \<open>catch {}\<close> swallows what was thrown and lets the function go on.
\<close>

definition catch_all :: "js_error + 'a option \<Rightarrow> 'a option" where
  "catch_all r = (case r of Inl e \<Rightarrow> None | Inr x \<Rightarrow> x)"

definition token_file_block :: "filesystem \<Rightarrow> js_error + jsstring option" where
  "token_file_block fs =
     (case readFileSync fs TokenFile of
        Inl e \<Rightarrow> Inl e
      | Inr s \<Rightarrow> (let token = trim s in if token \<noteq> [] then Inr (Some token) else Inr None))"

definition auth_json_block :: "parser \<Rightarrow> filesystem \<Rightarrow> js_error + jsstring option" where
  "auth_json_block parse fs =
     (case readFileSync fs AuthJson of
        Inl e \<Rightarrow> Inl e
      | Inr s \<Rightarrow>
          (case JSON_parse parse s of
             Inl e \<Rightarrow> Inl e
           | Inr auth \<Rightarrow>
               (let key = opt_get (opt_get (Some auth) (js ''dymium'')) (js ''key'') in
                case key of
                  Some (JString k) \<Rightarrow>
                    if truthy key \<and> trim k \<noteq> [] then Inr (Some (trim k)) else Inr None
                | _ \<Rightarrow> Inr None)))"

text \<open>\<open>resolveToken\<close>: \<open>Inr None\<close> is the result \<open>null\<close>, \<open>Inl\<close> would be an exception.\<close>

definition resolveToken :: "parser \<Rightarrow> filesystem \<Rightarrow> js_error + jsstring option" where
  "resolveToken parse fs =
     (case catch_all (token_file_block fs) of
        Some token \<Rightarrow> Inr (Some token)
      | None \<Rightarrow>
          (case catch_all (auth_json_block parse fs) of
             Some key \<Rightarrow> Inr (Some key)
           | None \<Rightarrow> Inr None))"

text \<open>
  The two sources of a token, as the description of \<open>resolveToken\<close> names them: the
  trimmed contents of the token file when the file can be read and is not blank, and the
  value of \<open>dymium.key\<close> in \<open>auth.json\<close> when the file can be read and parsed.
\<close>

definition token_file_contents :: "filesystem \<Rightarrow> jsstring option" where
  "token_file_contents fs =
     (case readable fs TokenFile of
        None \<Rightarrow> None
      | Some s \<Rightarrow> if trim s \<noteq> [] then Some (trim s) else None)"

definition auth_json_dymium_key :: "parser \<Rightarrow> filesystem \<Rightarrow> json option" where
  "auth_json_dymium_key parse fs =
     (case readable fs AuthJson of
        None \<Rightarrow> None
      | Some text \<Rightarrow>
          (case parse text of
             None \<Rightarrow> None
           | Some auth \<Rightarrow> opt_get (opt_get (Some auth) (js ''dymium'')) (js ''key'')))"

text \<open>
  The \<open>Headers\<close> class of the Fetch API, as a header list. Names are matched without
  regard to ASCII case and are reported in lower case. A name must be a token of HTTP and a
  value must not hold NUL, LF or CR; both must consist of code units up to \<open>0xFF\<close>.
  Before a value is checked and stored, HTTP white space (tab, LF, CR, space) is stripped
  from both its ends. \<open>append\<close> and \<open>set\<close> throw a TypeError for a name or a value
  that is not valid, and so does the constructor, which appends the entries of its
  argument one by one. \<open>set\<close> replaces every entry of the name by one entry, \<open>get\<close>
  joins the values of the name with a comma and a space, and iteration (\<open>forEach\<close>)
  visits the names in sorted order, each with its joined value.
\<close>

type_synonym header_list = "(jsstring \<times> jsstring) list"

definition is_tchar :: "16 word \<Rightarrow> bool" where
  "is_tchar c =
     ((0x30 \<le> c \<and> c \<le> 0x39) \<or> (0x41 \<le> c \<and> c \<le> 0x5A) \<or> (0x61 \<le> c \<and> c \<le> 0x7A)
      \<or> c \<in> set [0x21, 0x23, 0x24, 0x25, 0x26, 0x27, 0x2A, 0x2B, 0x2D, 0x2E, 0x5E, 0x5F, 0x60,
                  0x7C, 0x7E])"

definition header_name_ok :: "jsstring \<Rightarrow> bool" where
  "header_name_ok name = (name \<noteq> [] \<and> list_all is_tchar name)"

definition is_http_space :: "16 word \<Rightarrow> bool" where
  "is_http_space c = (c = 0x09 \<or> c = 0x0A \<or> c = 0x0D \<or> c = 0x20)"

definition normalize_value :: "jsstring \<Rightarrow> jsstring" where
  "normalize_value v = rev (dropWhile is_http_space (rev (dropWhile is_http_space v)))"

definition header_value_ok :: "jsstring \<Rightarrow> bool" where
  "header_value_ok v = list_all (\<lambda>c. c \<noteq> 0x00 \<and> c \<noteq> 0x0A \<and> c \<noteq> 0x0D \<and> c \<le> 0xFF) v"

definition Headers_append :: "jsstring \<Rightarrow> jsstring \<Rightarrow> header_list \<Rightarrow> js_error + header_list" where
  "Headers_append name v hs =
     (if header_name_ok name \<and> header_value_ok (normalize_value v)
      then Inr (hs @ [(lowercase name, normalize_value v)])
      else Inl TypeError)"

fun Headers_fill :: "header_list \<Rightarrow> header_list \<Rightarrow> js_error + header_list" where
  "Headers_fill [] hs = Inr hs"
| "Headers_fill ((k, v) # kvs) hs =
     (case Headers_append k v hs of Inl e \<Rightarrow> Inl e | Inr hs' \<Rightarrow> Headers_fill kvs hs')"

definition Headers_new :: "header_list option \<Rightarrow> js_error + header_list" where
  "Headers_new init = (case init of None \<Rightarrow> Inr [] | Some kvs \<Rightarrow> Headers_fill kvs [])"



fun join_values :: "jsstring list \<Rightarrow> jsstring" where
  "join_values [] = []"
| "join_values [v] = v"
| "join_values (v # vs) = v @ js '', '' @ join_values vs"


definition Headers_entries :: "header_list \<Rightarrow> header_list" where
  "Headers_entries hs =
     map (\<lambda>n. (n, join_values (map snd (filter (\<lambda>(k, v). k = n) hs)))) (sort (remdups (map fst hs)))"

text \<open>
  The arguments of \<open>fetch\<close>. \<open>input\<close> is a string, a \<open>URL\<close> or a \<open>Request\<close>;
  \<open>init\<close> may be missing, and so may each of its fields. The fields of a \<open>URL\<close> are
  those of the URL API: \<open>hostname\<close> is the host without the port, \<open>port\<close> is empty for
  the default port of the scheme.
\<close>

record url =
  href :: jsstring
  protocol :: jsstring
  hostname :: jsstring
  port :: jsstring
  pathname :: jsstring
  search :: jsstring

datatype fetch_input = InputString jsstring | InputURL url | InputRequest jsstring

datatype body_init =
    BodyString jsstring
  | BodyArrayBuffer "8 word list"
  | BodyView "8 word list"
  | BodyOther jsstring

record request_init =
  init_method :: "jsstring option"
  init_headers :: "header_list option"
  init_body :: "body_init option"


definition string_truthy :: "jsstring option \<Rightarrow> bool" where
  "string_truthy s = (case s of None \<Rightarrow> False | Some t \<Rightarrow> t \<noteq> [])"


definition method_or_GET :: "request_init option \<Rightarrow> jsstring" where
  "method_or_GET init =
     (case init of
        None \<Rightarrow> js ''GET''
      | Some i \<Rightarrow> if string_truthy (init_method i) then the (init_method i) else js ''GET'')"



definition valid_headers :: "header_list \<Rightarrow> bool" where
  "valid_headers kvs = list_all (\<lambda>(k, v). header_name_ok k \<and> header_value_ok (normalize_value v)) kvs"

text \<open>The caller's entries in their order, each name in lower case, each value stripped.\<close>

definition stored :: "header_list \<Rightarrow> header_list" where
  "stored kvs = map (\<lambda>(k, v). (lowercase k, normalize_value v)) kvs"


section \<open>The HTTP/1.1 plugin: \<open>getDymiumToken\<close>, \<open>dymiumFetch\<close>, \<open>http11Request\<close>\<close>

text \<open>
  What the platform supplies: \<open>JSON.parse\<close>, the \<open>URL\<close> constructor (\<open>None\<close> when it
  throws a TypeError), \<open>TextDecoder.decode\<close>, the conversion of a value that is not a
  string in a template literal, and \<open>Buffer.byteLength\<close>.
\<close>

record platform =
  json_parse :: parser
  url_parse :: "jsstring \<Rightarrow> url option"
  text_decode :: "8 word list \<Rightarrow> jsstring"
  to_String :: "json \<Rightarrow> jsstring"
  byteLength :: "jsstring \<Rightarrow> nat"

definition template :: "platform \<Rightarrow> json \<Rightarrow> jsstring" where
  "template P v = (case v of JString s \<Rightarrow> s | _ \<Rightarrow> to_String P v)"

text \<open>
  \<open>getDymiumToken\<close>: the whole body is in one \<open>try\<close>, and every failure returns
  \<open>null\<close> (\<open>None\<close>). The value returned is \<open>auth.dymium.key\<close> as it is, of whatever type.
\<close>

definition getDymiumToken :: "platform \<Rightarrow> filesystem \<Rightarrow> json option" where
  "getDymiumToken P fs =
     (if \<not> existsSync fs AuthJson then None
      else case readFileSync fs AuthJson of
             Inl e \<Rightarrow> None
           | Inr content \<Rightarrow>
               (case JSON_parse (json_parse P) content of
                  Inl e \<Rightarrow> None
                | Inr auth \<Rightarrow>
                    (case get_prop (Some auth) (js ''dymium'') of
                       Inl e \<Rightarrow> None
                     | Inr dymium \<Rightarrow>
                         (let key = opt_get dymium (js ''key'') in
                          if truthy key then key else None))))"

text \<open>
  A plain object used as a string-keyed record: keys are case-sensitive and keep their
  insertion order; assigning to an existing key keeps its place.
\<close>

type_synonym jsobject = "(jsstring \<times> jsstring) list"

fun obj_set :: "jsstring \<Rightarrow> jsstring \<Rightarrow> jsobject \<Rightarrow> jsobject" where
  "obj_set k v [] = [(k, v)]"
| "obj_set k v ((k', v') # kvs) = (if k' = k then (k, v) # kvs else (k', v') # obj_set k v kvs)"

fun obj_assign_all :: "(jsstring \<times> jsstring) list \<Rightarrow> jsobject \<Rightarrow> jsobject" where
  "obj_assign_all [] obj = obj"
| "obj_assign_all ((k, v) # kvs) obj = obj_assign_all kvs (obj_set k v obj)"

text \<open>The options given to \<open>http.request\<close> or \<open>https.request\<close>, and the body written.\<close>

record node_request =
  use_https :: bool
  req_hostname :: jsstring
  req_port :: jsstring
  req_path :: jsstring
  req_method :: jsstring
  req_headers :: jsobject
  req_body :: "jsstring option"

definition http11Request :: "platform \<Rightarrow> url \<Rightarrow> jsstring \<Rightarrow> jsobject \<Rightarrow> jsstring option \<Rightarrow> node_request" where
  "http11Request P u method hdrs body =
     (let isHttps = (protocol u = js ''https:'');
          hostHeader = hostname u;
          headers1 = obj_set (js ''Connection'') (js ''close'') (obj_set (js ''Host'') hostHeader hdrs);
          headers2 = (if string_truthy body
                      then obj_set (js ''Content-Length'') (js_itoa (int (byteLength P (the body)))) headers1
                      else headers1)
      in \<lparr>use_https = isHttps,
          req_hostname = hostname u,
          req_port = (if port u \<noteq> [] then port u else if isHttps then js ''443'' else js ''80''),
          req_path = pathname u @ search u,
          req_method = method,
          req_headers = headers2,
          req_body = (if string_truthy body then body else None)\<rparr>)"

definition body_to_string :: "platform \<Rightarrow> body_init \<Rightarrow> jsstring" where
  "body_to_string P b =
     (case b of
        BodyString s \<Rightarrow> s
      | BodyArrayBuffer bs \<Rightarrow> text_decode P bs
      | BodyView bs \<Rightarrow> text_decode P bs
      | BodyOther s \<Rightarrow> s)"

definition body_truthy :: "body_init option \<Rightarrow> bool" where
  "body_truthy b = (case b of None \<Rightarrow> False | Some (BodyString s) \<Rightarrow> s \<noteq> [] | Some _ \<Rightarrow> True)"

definition input_url :: "platform \<Rightarrow> fetch_input \<Rightarrow> js_error + url" where
  "input_url P input =
     (case input of
        InputString s \<Rightarrow> (case url_parse P s of None \<Rightarrow> Inl TypeError | Some u \<Rightarrow> Inr u)
      | InputURL u \<Rightarrow> Inr u
      | InputRequest r \<Rightarrow> (case url_parse P r of None \<Rightarrow> Inl TypeError | Some u \<Rightarrow> Inr u))"

text \<open>The headers the caller passed in \<open>init\<close>, none when \<open>init\<close> or its \<open>headers\<close> is missing.\<close>

definition caller_headers :: "request_init option \<Rightarrow> header_list" where
  "caller_headers init =
     (case (case init of None \<Rightarrow> None | Some i \<Rightarrow> init_headers i) of None \<Rightarrow> [] | Some kvs \<Rightarrow> kvs)"

definition no_token_error :: js_error where
  "no_token_error = Error (js
     ''[dymium-auth] No valid Dymium token available. Please ensure the Dymium Provider app is running.'')"

definition default_headers :: jsobject where
  "default_headers =
     [(js ''Content-Type'', js ''application/json''),
      (js ''Accept'', js ''application/json, text/event-stream'')]"

definition dymiumFetch ::
  "platform \<Rightarrow> filesystem \<Rightarrow> fetch_input \<Rightarrow> request_init option \<Rightarrow> js_error + node_request"
where
  "dymiumFetch P fs input init =
     (case getDymiumToken P fs of
        None \<Rightarrow> Inl no_token_error
      | Some token \<Rightarrow>
          (case input_url P input of
             Inl e \<Rightarrow> Inl e
           | Inr u \<Rightarrow>
               (case (case (case init of None \<Rightarrow> None | Some i \<Rightarrow> init_headers i) of
                        None \<Rightarrow> Inr default_headers
                      | Some kvs \<Rightarrow>
                          (case Headers_new (Some kvs) of
                             Inl e \<Rightarrow> Inl e
                           | Inr initHeaders \<Rightarrow>
                               Inr (obj_assign_all (Headers_entries initHeaders) default_headers))) of
                  Inl e \<Rightarrow> Inl e
                | Inr headers1 \<Rightarrow>
                    (let headers2 = obj_set (js ''Authorization'') (js ''Bearer '' @ template P token) headers1;
                         initBody = (case init of None \<Rightarrow> None | Some i \<Rightarrow> init_body i);
                         body = (if body_truthy initBody then Some (body_to_string P (the initBody)) else None)
                     in Inr (http11Request P u (method_or_GET init) headers2 body)))))"

text \<open>
  How Node's \<open>ClientRequest\<close> turns the \<open>headers\<close> object into the header block of the
  request: it calls \<open>setHeader\<close> for each key in order, and \<open>setHeader\<close> files the header
  under its lower-cased name, so of two keys that differ only in case the later one is
  sent. \<open>sent_header obj name\<close> is the value sent for \<open>name\<close>.
\<close>

definition sent_header :: "jsobject \<Rightarrow> jsstring \<Rightarrow> jsstring option" where
  "sent_header obj name =
     (case filter (\<lambda>(k, v). lowercase k = lowercase name) obj of
        [] \<Rightarrow> None
      | kvs \<Rightarrow> Some (snd (last kvs)))"


section \<open>The session trackers\<close>

text \<open>
  Two of the plugin modules keep a tracker: the logging plugin, whose only hook is the
  \<open>event\<close> handler, and the HTTP/1.1 plugin, which has the \<open>loader\<close> of the auth hook
  and an \<open>event\<close> handler. In each, \<open>sessionState\<close> is one module-level object that
  the hooks read and write. \<open>requestStartTime\<close> is a time in milliseconds or
  \<open>null\<close>; \<open>lastStatus\<close> is declared a string or \<open>null\<close> and holds whatever
  \<open>props.status\<close> was. \<open>formatDuration\<close> is the same function in both modules.
\<close>

record SessionState =
  requestStartTime :: "int option"
  lastStatus :: json
  isProcessing :: bool


definition formatDuration :: "int \<Rightarrow> jsstring" where
  "formatDuration ms =
     (if ms < 1000 then js_itoa ms @ js ''ms''
      else let seconds = ms div 1000 in
        if seconds < 60 then js_itoa seconds @ js ''s''
        else let minutes = seconds div 60; remainingSeconds = seconds mod 60
             in js_itoa minutes @ js ''m '' @ js_itoa remainingSeconds @ js ''s'')"

record event =
  etype :: jsstring
  properties :: "json option"

definition time_truthy :: "int option \<Rightarrow> bool" where
  "time_truthy t = (case t of None \<Rightarrow> False | Some n \<Rightarrow> n \<noteq> 0)"

definition js_startsWith :: "jsstring \<Rightarrow> jsstring \<Rightarrow> bool" where
  "js_startsWith s p = (take (length p) s = p)"

text \<open>
  The text of \<open>props.part?.reasoning?.substring(0, 100)\<close> inside the template literal:
  \<open>undefined\<close> when the property is missing or \<open>null\<close>, the first hundred code units
  of a string, and a TypeError for any other value, which has no \<open>substring\<close>.
\<close>

definition reasoning_excerpt :: "json option \<Rightarrow> js_error + jsstring" where
  "reasoning_excerpt part =
     (case opt_get part (js ''reasoning'') of
        None \<Rightarrow> Inr (js ''undefined'')
      | Some JNull \<Rightarrow> Inr (js ''undefined'')
      | Some (JString s) \<Rightarrow> Inr (take 100 s)
      | Some _ \<Rightarrow> Inl TypeError)"

text \<open>
  The \<open>event\<close> handler of the logging plugin at time \<open>now\<close> (the value of
  \<open>Date.now()\<close>): the lines it logs and the tracker afterwards, or the exception it ends
  with. \<open>stringify\<close> is \<open>JSON.stringify\<close>. The cases of the \<open>switch\<close> are
  \<open>session.status\<close>, \<open>session.idle\<close>, \<open>session.error\<close>, \<open>session.created\<close> and
  \<open>message.part.updated\<close>, then \<open>default\<close>.
\<close>

definition logging_event ::
  "platform \<Rightarrow> (json \<Rightarrow> jsstring) \<Rightarrow> int \<Rightarrow> event \<Rightarrow> SessionState
     \<Rightarrow> js_error + (jsstring list \<times> SessionState)"
where
  "logging_event P stringify now ev st =
     (let eventType = etype ev;
          props = (if truthy (properties ev) then the (properties ev) else JObject [])
      in
      if eventType = js ''session.status'' then
        (let s = (if truthy (opt_get (Some props) (js ''status''))
                  then the (opt_get (Some props) (js ''status'')) else JString (js ''unknown''))
         in Inr ([js ''Session status: '' @ template P s], st\<lparr>lastStatus := s\<rparr>))
      else if eventType = js ''session.idle'' then
        (if time_truthy (requestStartTime st)
         then Inr ([js ''Session completed in '' @ formatDuration (now - the (requestStartTime st))],
                   st\<lparr>requestStartTime := None, isProcessing := False, lastStatus := JString (js ''idle'')\<rparr>)
         else Inr ([], st\<lparr>isProcessing := False, lastStatus := JString (js ''idle'')\<rparr>))
      else if eventType = js ''session.error'' then
        (let line = js ''Session error: '' @ stringify props;
             st1 = st\<lparr>isProcessing := False, lastStatus := JString (js ''error'')\<rparr>
         in if time_truthy (requestStartTime st1)
            then Inr ([line, js ''Session failed after '' @ formatDuration (now - the (requestStartTime st1))],
                      st1\<lparr>requestStartTime := None\<rparr>)
            else Inr ([line], st1))
      else if eventType = js ''session.created'' then
        Inr ([js ''Session created''],
             st\<lparr>requestStartTime := Some now, isProcessing := True, lastStatus := JString (js ''started'')\<rparr>)
      else if eventType = js ''message.part.updated'' then
        (let part = opt_get (Some props) (js ''part'') in
         if opt_get part (js ''type'') = Some (JString (js ''reasoning''))
         then (case reasoning_excerpt part of
                 Inl e \<Rightarrow> Inl e
               | Inr text \<Rightarrow> Inr ([js ''Reasoning update: '' @ text @ js ''...''], st))
         else Inr ([], st))
      else if js_startsWith eventType (js ''session.'') \<or> js_startsWith eventType (js ''message.'')
      then Inr ([js ''Event: '' @ eventType], st)
      else Inr ([], st))"

text \<open>
  The \<open>event\<close> handler of the HTTP/1.1 plugin. Its \<open>switch\<close> has the cases
  \<open>session.status\<close>, \<open>session.idle\<close>, \<open>session.error\<close> and
  \<open>message.part.updated\<close>, with the same bodies, and no case for \<open>session.created\<close>:
  that event goes to \<open>default\<close> and is only logged. In this plugin the start time is set
  by the \<open>loader\<close>.
\<close>

definition http11_event ::
  "platform \<Rightarrow> (json \<Rightarrow> jsstring) \<Rightarrow> int \<Rightarrow> event \<Rightarrow> SessionState
     \<Rightarrow> js_error + (jsstring list \<times> SessionState)"
where
  "http11_event P stringify now ev st =
     (let eventType = etype ev;
          props = (if truthy (properties ev) then the (properties ev) else JObject [])
      in
      if eventType = js ''session.status'' then
        (let s = (if truthy (opt_get (Some props) (js ''status''))
                  then the (opt_get (Some props) (js ''status'')) else JString (js ''unknown''))
         in Inr ([js ''Session status: '' @ template P s], st\<lparr>lastStatus := s\<rparr>))
      else if eventType = js ''session.idle'' then
        (if time_truthy (requestStartTime st)
         then Inr ([js ''Session completed in '' @ formatDuration (now - the (requestStartTime st))],
                   st\<lparr>requestStartTime := None, isProcessing := False, lastStatus := JString (js ''idle'')\<rparr>)
         else Inr ([], st\<lparr>isProcessing := False, lastStatus := JString (js ''idle'')\<rparr>))
      else if eventType = js ''session.error'' then
        (let line = js ''Session error: '' @ stringify props;
             st1 = st\<lparr>isProcessing := False, lastStatus := JString (js ''error'')\<rparr>
         in if time_truthy (requestStartTime st1)
            then Inr ([line, js ''Session failed after '' @ formatDuration (now - the (requestStartTime st1))],
                      st1\<lparr>requestStartTime := None\<rparr>)
            else Inr ([line], st1))
      else if eventType = js ''message.part.updated'' then
        (let part = opt_get (Some props) (js ''part'') in
         if opt_get part (js ''type'') = Some (JString (js ''reasoning''))
         then (case reasoning_excerpt part of
                 Inl e \<Rightarrow> Inl e
               | Inr text \<Rightarrow> Inr ([js ''Reasoning update: '' @ text @ js ''...''], st))
         else Inr ([], st))
      else if js_startsWith eventType (js ''session.'') \<or> js_startsWith eventType (js ''message.'')
      then Inr ([js ''Event: '' @ eventType], st)
      else Inr ([], st))"

text \<open>
  The \<open>loader\<close> of the auth hook of the HTTP/1.1 plugin, called at time \<open>now\<close> with a
  provider whose \<open>provider?.id || provider\<close> prints as \<open>shown\<close>.
\<close>

definition loader :: "jsstring \<Rightarrow> int \<Rightarrow> SessionState \<Rightarrow> jsstring list \<times> SessionState" where
  "loader shown now st =
     ([js ''Loader called for provider: '' @ shown],
      st\<lparr>requestStartTime := Some now, isProcessing := True, lastStatus := JString (js ''connecting'')\<rparr>)"

text \<open>
  A process serves several requests, and the calls that belong to them arrive interleaved.
  A call is tagged with the request it belongs to; the hooks never see the tag. The calls
  of the logging plugin are events; the calls of the HTTP/1.1 plugin are loader calls and
  events. \<open>run\<close> threads the one tracker of a plugin through the calls and records, for
  each call, what it logged or threw. A handler that throws leaves the tracker as it was.
\<close>

datatype call = LoaderCall jsstring | EventCall event

record 'c tagged_call =
  request :: nat
  at_time :: int
  the_call :: 'c

type_synonym outcome_log = "js_error + jsstring list"

definition logging_step ::
  "platform \<Rightarrow> (json \<Rightarrow> jsstring) \<Rightarrow> event tagged_call \<Rightarrow> SessionState
     \<Rightarrow> outcome_log \<times> SessionState"
where
  "logging_step P stringify c st =
     (case logging_event P stringify (at_time c) (the_call c) st of
        Inl e \<Rightarrow> (Inl e, st)
      | Inr (ls, st') \<Rightarrow> (Inr ls, st'))"

definition http11_step ::
  "platform \<Rightarrow> (json \<Rightarrow> jsstring) \<Rightarrow> call tagged_call \<Rightarrow> SessionState
     \<Rightarrow> outcome_log \<times> SessionState"
where
  "http11_step P stringify c st =
     (case the_call c of
        LoaderCall shown \<Rightarrow> (let (ls, st') = loader shown (at_time c) st in (Inr ls, st'))
      | EventCall ev \<Rightarrow>
          (case http11_event P stringify (at_time c) ev st of
             Inl e \<Rightarrow> (Inl e, st)
           | Inr (ls, st') \<Rightarrow> (Inr ls, st')))"

fun run ::
  "('c tagged_call \<Rightarrow> SessionState \<Rightarrow> outcome_log \<times> SessionState) \<Rightarrow> SessionState
     \<Rightarrow> 'c tagged_call list \<Rightarrow> (nat \<times> outcome_log) list"
where
  "run stp st [] = []"
| "run stp st (c # cs) = (let (out, st') = stp c st in (request c, out) # run stp st' cs)"




section \<open>Concrete inputs for the examples\<close>

definition auth_text_key2 :: jsstring where
  \<open>auth_text_key2 = js ''{"dymium":{"key":" key-2 "}}''\<close>

definition auth_text_blank :: jsstring where
  \<open>auth_text_blank = js ''{"dymium":{"key":" "}}''\<close>

definition sample_parse :: parser where
  "sample_parse text =
     (if text = auth_text_key2
      then Some (JObject [(js ''dymium'', JObject [(js ''key'', JString (js '' key-2 ''))])])
      else if text = auth_text_blank
      then Some (JObject [(js ''dymium'', JObject [(js ''key'', JString (js '' ''))])])
      else None)"

definition fs_with_token :: filesystem where
  "fs_with_token =
     \<lparr>existsSync = (\<lambda>p. True),
      readable = (\<lambda>p. case p of TokenFile \<Rightarrow> Some (js '' tok-1'' @ [0x0A]) | AuthJson \<Rightarrow> Some auth_text_key2)\<rparr>"

definition fs_auth_only :: filesystem where
  "fs_auth_only =
     \<lparr>existsSync = (\<lambda>p. p = AuthJson),
      readable = (\<lambda>p. case p of TokenFile \<Rightarrow> None | AuthJson \<Rightarrow> Some auth_text_key2)\<rparr>"

definition fs_blank_key :: filesystem where
  "fs_blank_key =
     \<lparr>existsSync = (\<lambda>p. p = AuthJson),
      readable = (\<lambda>p. case p of TokenFile \<Rightarrow> None | AuthJson \<Rightarrow> Some auth_text_blank)\<rparr>"



definition fs_empty :: filesystem where
  "fs_empty = \<lparr>existsSync = (\<lambda>p. False), readable = (\<lambda>p. None)\<rparr>"

definition sample_url :: url where
  "sample_url =
     \<lparr>href = js ''http://llm.dymium.home:3000/v1/chat/completions'',
      protocol = js ''http:'',
      hostname = js ''llm.dymium.home'',
      port = js ''3000'',
      pathname = js ''/v1/chat/completions'',
      search = []\<rparr>"

definition sample_platform :: platform where
  "sample_platform =
     \<lparr>json_parse = sample_parse,
      url_parse = (\<lambda>s. if s = href sample_url then Some sample_url else None),
      text_decode = (\<lambda>bs. map ucast bs),
      to_String = (\<lambda>v. js ''[object Object]''),
      byteLength = length\<rparr>"

definition caller_init :: request_init where
  "caller_init =
     \<lparr>init_method = Some (js ''POST''),
      init_headers = Some [(js ''Authorization'', js ''Bearer stale''),
                           (js ''Host'', js ''other.example:8080''),
                           (js ''Connection'', js ''keep-alive''),
                           (js ''X-Trace'', js ''1'')],
      init_body = Some (BodyString (js ''{}''))\<rparr>"

definition padded_init :: request_init where
  "padded_init =
     \<lparr>init_method = Some (js ''POST''),
      init_headers = Some [(js ''Authorization'', js ''Bearer stale''),
                           (js ''X-Trace'', js '' 1 '')],
      init_body = Some (BodyString (js ''{}''))\<rparr>"

definition bad_name_init :: request_init where
  "bad_name_init =
     \<lparr>init_method = Some (js ''POST''),
      init_headers = Some [(js ''X Trace'', js ''1'')],
      init_body = None\<rparr>"

definition created_event :: event where
  "created_event = \<lparr>etype = js ''session.created'', properties = None\<rparr>"


definition status_event :: event where
  "status_event =
     \<lparr>etype = js ''session.status'', properties = Some (JObject [(js ''status'', JString (js ''busy''))])\<rparr>"






section \<open>Properties of the streaming handlers\<close>

subsection \<open>What the helpers write\<close>

lemma written_fprintf [simp]: "written (fprintf x st) = written st @ [x]"
  by (simp add: fprintf_def)

lemma id_calls_fprintf [simp]: "id_calls (fprintf x st) = id_calls st"
  by (simp add: fprintf_def)

lemma written_emit [simp]: "written (emit E d fin st) = written st @ [Data (mk_chunk E st d fin)]"
  by (simp add: emit_def)

lemma id_calls_emit [simp]: "id_calls (emit E d fin st) = Suc (id_calls st)"
  by (simp add: emit_def)

lemma written_sse_headers [simp]: "written (sse_headers st) = written st"
  by (simp add: sse_headers_def header_set_def)

lemma id_calls_sse_headers [simp]: "id_calls (sse_headers st) = id_calls st"
  by (simp add: sse_headers_def header_set_def)

lemma written_sendReasoningEvent [simp]:
  "written (sendReasoningEvent E m st) = written st @ [Data (mk_chunk E st (ReasoningContent m) Null)]"
  by (simp add: sendReasoningEvent_def)

lemma id_calls_sendReasoningEvent [simp]: "id_calls (sendReasoningEvent E m st) = Suc (id_calls st)"
  by (simp add: sendReasoningEvent_def)

lemma written_sendDoneEvent [simp]:
  "written (sendDoneEvent E st)
     = written st @ [Data (mk_chunk E st EmptyDelta (Val (ascii ''stop''))), DoneSentinel]"
  by (simp add: sendDoneEvent_def)

lemma id_calls_sendDoneEvent [simp]: "id_calls (sendDoneEvent E st) = Suc (id_calls st)"
  by (simp add: sendDoneEvent_def)

lemma written_sendReasoning [simp]:
  "written (sendReasoning i m st) = written st @ [Data (mk_chunk2 i (ReasoningContent m))]"
  by (simp add: sendReasoning_def)

lemma written_sendContent [simp]:
  "written (sendContent i m st) = written st @ [Data (mk_chunk2 i (Content (json_string m)))]"
  by (simp add: sendContent_def escapeJSON_def)

lemma marshal_delta_simps [simp]:
  "marshal_delta (ReasoningContent m) = ReasoningContent (json_string m)"
  "marshal_delta (Content c) = Content (json_string c)"
  "marshal_delta EmptyDelta = EmptyDelta"
  by (simp_all add: marshal_delta_def)

lemma written_init_state [simp]: "written (init_state a b) = []"
  by (simp add: init_state_def)

lemma id_calls_init_state [simp]: "id_calls (init_state a b) = a"
  by (simp add: init_state_def)

lemma cdelta_mk_chunk [simp]: "cdelta (mk_chunk E st d fin) = marshal_delta d"
  by (simp add: mk_chunk_def)

lemma cid_mk_chunk [simp]: "cid (mk_chunk E st d fin) = json_string (generateChunkID E (id_calls st))"
  by (simp add: mk_chunk_def)

lemma cfinish_reason_mk_chunk [simp]: "cfinish_reason (mk_chunk E st d fin) = fin"
  by (simp add: mk_chunk_def)

lemma cdelta_mk_chunk2 [simp]: "cdelta (mk_chunk2 i d) = d"
  by (simp add: mk_chunk2_def)

lemma cid_mk_chunk2 [simp]: "cid (mk_chunk2 i d) = i"
  by (simp add: mk_chunk2_def)

lemma has_finish_reason_mk_chunk [simp]:
  "has_finish_reason (mk_chunk E st d fin) = (case fin of Val _ \<Rightarrow> True | _ \<Rightarrow> False)"
  by (simp add: has_finish_reason_def)

lemma has_finish_reason_mk_chunk2 [simp]: "\<not> has_finish_reason (mk_chunk2 i d)"
  by (simp add: has_finish_reason_def mk_chunk2_def)

lemma frames_of_append [simp]: "frames_of (xs @ ys) = frames_of xs @ frames_of ys"
  by (induction xs rule: frames_of.induct) auto

lemma frames_of_map_Data [simp]: "frames_of (map Data cs) = cs"
  by (induction cs) auto

lemma fragments_of_append [simp]: "fragments_of (xs @ ys) = fragments_of xs @ fragments_of ys"
  by (induction xs rule: fragments_of.induct) (auto split: delta.splits)

subsection \<open>The chunking loop\<close>

lemma slice_step:
  "i < length content \<Longrightarrow> slice content i (min (i + 50) (length content)) = take 50 (drop i content)"
  by (auto simp: slice_def min_def)

lemma concat_content_slices: "concat (content_slices content i) = drop i content"
proof (induction content i rule: content_slices.induct)
  case (1 content i)
  show ?case
  proof (cases "i < length content")
    case True
    have "drop i content = take 50 (drop i content) @ drop (i + 50) content"
      by (metis add.commute append_take_drop_id drop_drop)
    then show ?thesis
      using True 1 by (subst content_slices.simps) (simp add: slice_step)
  next
    case False
    then show ?thesis by (subst content_slices.simps) simp
  qed
qed

lemma sendContentEvent_from_frames:
  "\<exists>cs. written (sendContentEvent_from E content i st) = written st @ map Data cs
      \<and> map cdelta cs = map (\<lambda>s. Content (json_string s)) (content_slices content i)
      \<and> list_all (\<lambda>c. cfinish_reason c = Null) cs
      \<and> map cid cs = map (\<lambda>k. json_string (generateChunkID E k)) [id_calls st ..< id_calls st + length cs]
      \<and> id_calls (sendContentEvent_from E content i st) = id_calls st + length cs"
proof (induction E content i st rule: sendContentEvent_from.induct)
  case (1 E content i st)
  show ?case
  proof (cases "i < length content")
    case True
    let ?d = "Content (slice content i (min (i + 50) (length content)))"
    let ?st = "emit E ?d Null st"
    from 1 [OF True] obtain cs where cs:
      "written (sendContentEvent_from E content (i + 50) ?st) = written ?st @ map Data cs"
      "map cdelta cs = map (\<lambda>s. Content (json_string s)) (content_slices content (i + 50))"
      "list_all (\<lambda>c. cfinish_reason c = Null) cs"
      "map cid cs = map (\<lambda>k. json_string (generateChunkID E k)) [id_calls ?st ..< id_calls ?st + length cs]"
      "id_calls (sendContentEvent_from E content (i + 50) ?st) = id_calls ?st + length cs"
      by blast
    let ?c = "mk_chunk E st ?d Null"
    have eq: "sendContentEvent_from E content i st = sendContentEvent_from E content (i + 50) ?st"
      using True by (subst sendContentEvent_from.simps) simp
    have sl: "content_slices content i
                = slice content i (min (i + 50) (length content)) # content_slices content (i + 50)"
      using True by (subst content_slices.simps) simp
    have "written (sendContentEvent_from E content i st) = written st @ map Data (?c # cs)"
      using cs(1) by (simp add: eq)
    moreover have "map cdelta (?c # cs) = map (\<lambda>s. Content (json_string s)) (content_slices content i)"
      using cs(2) by (simp add: sl)
    moreover have "list_all (\<lambda>c. cfinish_reason c = Null) (?c # cs)"
      using cs(3) by simp
    moreover have "map cid (?c # cs)
        = map (\<lambda>k. json_string (generateChunkID E k)) [id_calls st ..< id_calls st + length (?c # cs)]"
    proof -
      have u: "[a ..< Suc (a + n)] = a # [Suc a ..< Suc (a + n)]" for a n :: nat
        by (simp add: upt_conv_Cons del: upt_Suc)
      show ?thesis using cs(4) by (simp add: u del: upt_Suc)
    qed
    moreover have "id_calls (sendContentEvent_from E content i st) = id_calls st + length (?c # cs)"
      using cs(5) by (simp add: eq)
    ultimately show ?thesis by blast
  next
    case False
    then have "sendContentEvent_from E content i st = st"
      by (subst sendContentEvent_from.simps) simp
    moreover have "content_slices content i = []"
      using False by (subst content_slices.simps) simp
    ultimately show ?thesis by (intro exI [of _ "[]"]) simp
  qed
qed

lemma fragments_of_map_Data:
  "map cdelta cs = map Content fs \<Longrightarrow> fragments_of (map Data cs) = fs"
  by (induction cs arbitrary: fs) auto

lemma fragments_sendContentEvent:
  "fragments_of (written (sendContentEvent E content st))
     = fragments_of (written st) @ map json_string (content_slices content 0)"
proof -
  obtain cs where
    "written (sendContentEvent_from E content 0 st) = written st @ map Data cs"
    "map cdelta cs = map (\<lambda>s. Content (json_string s)) (content_slices content 0)"
    using sendContentEvent_from_frames by blast
  then show ?thesis
    using fragments_of_map_Data [of cs "map json_string (content_slices content 0)"]
    by (simp add: sendContentEvent_def comp_def)
qed

text \<open>
  The fragments add up to the content when marshalling leaves every slice as it is, that
  is, when no cut falls inside a character of a well-formed text.
\<close>

lemma sendContentEvent_concat:
  "list_all (\<lambda>s. json_string s = s) (content_slices content 0)
     \<Longrightarrow> concat (fragments_of (written (sendContentEvent E content st)))
           = concat (fragments_of (written st)) @ content"
proof -
  assume "list_all (\<lambda>s. json_string s = s) (content_slices content 0)"
  then have "map json_string (content_slices content 0) = content_slices content 0"
    by (simp add: list_all_iff map_idI)
  then show ?thesis
    by (simp add: fragments_sendContentEvent concat_content_slices)
qed

subsection \<open>Marshalling leaves ASCII and the status texts as they are\<close>

lemma json_string_ascii_Cons: "b < 0x80 \<Longrightarrow> json_string (b # bs) = b # json_string bs"
  by (simp add: json_string.simps rune_len_def)

lemma json_string_ascii_append:
  "list_all (\<lambda>b. b < 0x80) xs \<Longrightarrow> json_string (xs @ ys) = xs @ json_string ys"
  by (induction xs) (simp_all add: json_string_ascii_Cons)

lemma json_string_ascii: "list_all (\<lambda>b. b < 0x80) xs \<Longrightarrow> json_string xs = xs"
  using json_string_ascii_append [of xs "[]"] by (simp add: json_string.simps)

lemma decimal_digits: "list_all (\<lambda>d. 48 \<le> d \<and> d \<le> 57) (decimal n)"
proof (induction n rule: decimal.induct)
  case (1 n)
  show ?case
  proof (cases "n < 10")
    case True
    then show ?thesis by (subst decimal.simps) simp
  next
    case False
    have "n mod 10 < 10" by simp
    then have "48 + n mod 10 \<le> 57" by linarith
    with False 1 show ?thesis by (subst decimal.simps) simp
  qed
qed

lemma itoa_ascii: "list_all (\<lambda>b. b < 0x80) (itoa n)"
proof -
  have "(of_nat d :: byte) < 0x80" if "48 \<le> d \<and> d \<le> 57" for d
    using that by (simp add: word_less_nat_alt unat_of_nat)
  with decimal_digits [of n] show ?thesis
    by (simp add: itoa_def list_all_iff)
qed

lemma json_string_status_texts [simp]:
  "json_string securing_msg = securing_msg"
  "json_string waiting_msg = waiting_msg"
  "json_string restoring_msg = restoring_msg"
  by (simp_all add: securing_msg_def waiting_msg_def restoring_msg_def ascii_def
      json_string.simps rune_len_def cont_def)

lemma json_string_protected_msg [simp]: "json_string (protected_msg n) = protected_msg n"
proof -
  have tail: "json_string (itoa n @ ascii '' sensitive items'') = itoa n @ ascii '' sensitive items''"
    by (rule json_string_ascii) (simp add: itoa_ascii, simp add: ascii_def)
  have "json_string (protected_prefix @ rest) = protected_prefix @ json_string rest" for rest
    by (simp add: protected_prefix_def ascii_def json_string.simps rune_len_def cont_def)
  then show ?thesis
    by (simp add: protected_msg_def tail)
qed

lemma json_string_numbered_id: "json_string (ascii ''chatcmpl-'' @ itoa k) = ascii ''chatcmpl-'' @ itoa k"
  by (rule json_string_ascii) (simp add: itoa_ascii, simp add: ascii_def)

subsection \<open>The status texts\<close>

lemma starts_with_append [simp]: "starts_with p (p @ s)"
  by (simp add: starts_with_def)

lemma protected_msg_starts [simp]:
  "starts_with protected_prefix (protected_msg n)" "starts_with protected_prefix2 (protected_msg2 i)"
  by (simp_all add: protected_msg_def protected_msg2_def)

lemma other_msgs_not_protected [simp]:
  "\<not> starts_with protected_prefix securing_msg" "\<not> starts_with protected_prefix2 securing_msg"
  "\<not> starts_with protected_prefix securing_msg2" "\<not> starts_with protected_prefix2 securing_msg2"
  "\<not> starts_with protected_prefix waiting_msg" "\<not> starts_with protected_prefix2 waiting_msg"
  "\<not> starts_with protected_prefix restoring_msg" "\<not> starts_with protected_prefix2 restoring_msg"
  by (simp_all add: starts_with_def protected_prefix_def protected_prefix2_def securing_msg_def
      securing_msg2_def waiting_msg_def restoring_msg_def ascii_def)

subsection \<open>The frames of the two flows\<close>

lemma deltas_new_code_flow:
  "map cdelta (frames_of (written (snd (new_code_flow E True pii_len call deobfuscate st0))))
     = map cdelta (frames_of (written st0))
       @ [ReasoningContent securing_msg]
       @ (if pii_len > 0 then [ReasoningContent (protected_msg pii_len)] else [])
       @ [ReasoningContent waiting_msg, ReasoningContent restoring_msg]
       @ (case response call of
            None \<Rightarrow> []
          | Some content \<Rightarrow>
              map (\<lambda>s. Content (json_string s)) (content_slices (deobfuscate content) 0) @ [EmptyDelta])"
proof (cases "response call")
  case None
  then show ?thesis by (simp add: new_code_flow_def Let_def)
next
  case (Some content)
  define st5 where "st5 =
    sendReasoningEvent E restoring_msg (sendReasoningEvent E waiting_msg
      (if pii_len > 0
       then sendReasoningEvent E (protected_msg pii_len) (sendReasoningEvent E securing_msg (sse_headers st0))
       else sendReasoningEvent E securing_msg (sse_headers st0)))"
  obtain cs where cs:
    "written (sendContentEvent_from E (deobfuscate content) 0 st5) = written st5 @ map Data cs"
    "map cdelta cs = map (\<lambda>s. Content (json_string s)) (content_slices (deobfuscate content) 0)"
    using sendContentEvent_from_frames by blast
  have "snd (new_code_flow E True pii_len call deobfuscate st0)
          = sendDoneEvent E (sendContentEvent_from E (deobfuscate content) 0 st5)"
    using Some by (simp add: new_code_flow_def Let_def st5_def sendContentEvent_def)
  then show ?thesis
    using Some cs by (simp add: st5_def)
qed

lemma deltas_handleChatCompletion:
  "map cdelta (frames_of (written (handleChatCompletion generatedID True pii_count llmResponse deobfuscate st0)))
     = map cdelta (frames_of (written st0))
       @ [ReasoningContent securing_msg2]
       @ (if pii_count > 0 then [ReasoningContent (protected_msg2 pii_count)] else [])
       @ [ReasoningContent waiting_msg, ReasoningContent restoring_msg,
          Content (json_string (deobfuscate llmResponse))]"
  by (simp add: handleChatCompletion_def Let_def)

lemma cids_handleChatCompletion:
  "map cid (frames_of (written (handleChatCompletion generatedID True pii_count llmResponse deobfuscate st0)))
     = map cid (frames_of (written st0))
       @ replicate (if pii_count > 0 then 5 else 4) (ascii ''chatcmpl-'' @ generatedID)"
  by (simp add: handleChatCompletion_def Let_def eval_nat_numeral)

lemma cids_new_code_flow:
  "map cid (frames_of (written (snd (new_code_flow E has_flusher pii_len call deobfuscate (init_state k t)))))
     = map (\<lambda>j. json_string (generateChunkID E j))
         [k ..< id_calls (snd (new_code_flow E has_flusher pii_len call deobfuscate (init_state k t)))]"
proof (cases has_flusher)
  case False
  then show ?thesis by (simp add: new_code_flow_def Let_def)
next
  case True
  define st5 where "st5 =
    sendReasoningEvent E restoring_msg (sendReasoningEvent E waiting_msg
      (if pii_len > 0
       then sendReasoningEvent E (protected_msg pii_len)
              (sendReasoningEvent E securing_msg (sse_headers (init_state k t)))
       else sendReasoningEvent E securing_msg (sse_headers (init_state k t))))"
  have five: "map cid (frames_of (written st5))
      = map (\<lambda>j. json_string (generateChunkID E j)) [k ..< id_calls st5]"
    by (simp add: st5_def upt_conv_Cons del: upt_Suc)
  have le5: "k \<le> id_calls st5"
    by (simp add: st5_def)
  show ?thesis
  proof (cases "response call")
    case None
    then have "snd (new_code_flow E has_flusher pii_len call deobfuscate (init_state k t)) = st5"
      using True by (simp add: new_code_flow_def Let_def st5_def)
    then show ?thesis using five by simp
  next
    case (Some content)
    obtain cs where cs:
      "written (sendContentEvent_from E (deobfuscate content) 0 st5) = written st5 @ map Data cs"
      "map cid cs = map (\<lambda>j. json_string (generateChunkID E j)) [id_calls st5 ..< id_calls st5 + length cs]"
      "id_calls (sendContentEvent_from E (deobfuscate content) 0 st5) = id_calls st5 + length cs"
      using sendContentEvent_from_frames by blast
    have run: "snd (new_code_flow E has_flusher pii_len call deobfuscate (init_state k t))
            = sendDoneEvent E (sendContentEvent_from E (deobfuscate content) 0 st5)"
      using True Some by (simp add: new_code_flow_def Let_def st5_def sendContentEvent_def)
    have "[k ..< Suc (id_calls st5 + length cs)]
            = [k ..< id_calls st5] @ [id_calls st5 ..< id_calls st5 + length cs] @ [id_calls st5 + length cs]"
      using le5 upt_add_eq_append [OF le5, of "length cs"] by simp
    then show ?thesis
      by (simp add: run cs five del: upt_Suc)
  qed
qed

lemma list_ex_cdelta:
  "(\<And>c. P c = Q (cdelta c)) \<Longrightarrow> list_ex P fs = list_ex Q (map cdelta fs)"
  by (induction fs) auto

lemma set_offsets_replicate:
  "set (offsets k (replicate n [x] @ xss)) = {k..<k + n} \<union> set (offsets (k + n) xss)"
  by (induction n arbitrary: k) (auto simp: atLeastLessThan_def)

lemma itoa_digit: "n < 10 \<Longrightarrow> itoa n = [of_nat (48 + n)]"
  by (simp add: itoa_def decimal.simps)

lemma new_code_flow_Returned:
  assumes "new_code_flow E has_flusher pii_len call deobfuscate st0 = (Returned, st)"
  shows "has_flusher \<and> (\<exists>content. response call = Some content)"
  using assms by (auto simp: new_code_flow_def Let_def split: if_splits option.splits)

lemma filter_finish_Null:
  "list_all (\<lambda>c. cfinish_reason c = Null) cs \<Longrightarrow> filter has_finish_reason cs = []"
  by (induction cs) (auto simp: has_finish_reason_def)

lemma error_msg_differs [simp]:
  "securing_msg \<noteq> error_msg" "waiting_msg \<noteq> error_msg" "restoring_msg \<noteq> error_msg"
  "protected_msg n \<noteq> error_msg" "securing_msg2 \<noteq> error_msg" "protected_msg2 i \<noteq> error_msg"
  by (simp_all add: securing_msg_def waiting_msg_def restoring_msg_def protected_msg_def
      protected_prefix_def securing_msg2_def protected_msg2_def protected_prefix2_def error_msg_def)

lemma no_error_frame:
  "\<not> list_ex is_error_frame
       (frames_of (written (snd (new_code_flow E True pii_len call deobfuscate (init_state k t)))))"
  "\<not> list_ex is_error_frame
       (frames_of (written (handleChatCompletion generatedID True pii_count llmResponse deobfuscate (init_state k t))))"
proof -
  let ?err = "\<lambda>d. d = ReasoningContent error_msg"
  have e: "list_ex is_error_frame fs = list_ex ?err (map cdelta fs)" for fs
    by (rule list_ex_cdelta) (simp add: is_error_frame_def)
  have no: "\<not> list_ex ?err (map (\<lambda>s. Content (json_string s)) fs)" for fs
    by (induction fs) auto
  show "\<not> list_ex is_error_frame
       (frames_of (written (snd (new_code_flow E True pii_len call deobfuscate (init_state k t)))))"
    unfolding e deltas_new_code_flow by (simp add: no split: option.split)
  show "\<not> list_ex is_error_frame
       (frames_of (written (handleChatCompletion generatedID True pii_count llmResponse deobfuscate (init_state k t))))"
    unfolding e deltas_handleChatCompletion by simp
qed

subsection \<open>The claims about the streaming handlers\<close>

text \<open>
  Claim C1 (the fragments concatenated in order reproduce the content exactly, and no
  fragment boundary falls inside a multi-byte character). \<open>sendContentEvent\<close> cuts the
  content every 50 bytes. The text of 49 letters \<open>a\<close> followed by U+00E9 is 51 bytes in
  UTF-8 and is cut into the slices \<open>a\<close>...\<open>a\<close> \<open>C3\<close> and \<open>A9\<close>: the cut at byte 50
  is not a code point boundary of the text, whose code point boundaries are 0 to 49 and
  51. Neither slice is well-formed, so \<open>json.Marshal\<close> replaces the severed bytes: the
  two frames carry 49 letters \<open>a\<close> followed by U+FFFD, and U+FFFD alone. The fragments
  concatenated in order are therefore 55 bytes that differ from the content.
\<close>

theorem sendContentEvent_splits_code_point:
  "content_slices (utf8 (replicate 49 0x61 @ [0xE9])) 0 = [replicate 49 0x61 @ [0xC3], [0xA9]]
   \<and> 50 \<in> set (fragment_boundaries [replicate 49 0x61 @ [0xC3], [0xA9]])
   \<and> 50 \<notin> set (rune_boundaries (replicate 49 0x61 @ [0xE9]))
   \<and> fragments_of (written (sendContentEvent fresh_ids_env (utf8 (replicate 49 0x61 @ [0xE9])) (init_state 0 0)))
       = [replicate 49 0x61 @ [0xEF, 0xBF, 0xBD], [0xEF, 0xBF, 0xBD]]
   \<and> concat (fragments_of
         (written (sendContentEvent fresh_ids_env (utf8 (replicate 49 0x61 @ [0xE9])) (init_state 0 0))))
       \<noteq> utf8 (replicate 49 0x61 @ [0xE9])"
proof -
  have sl: "content_slices (utf8 (replicate 49 0x61 @ [0xE9])) 0 = [replicate 49 0x61 @ [0xC3], [0xA9]]"
    by (simp add: content_slices.simps utf8_def utf8_rune_def slice_def)
  have rb: "set (rune_boundaries (replicate 49 0x61 @ [0xE9])) = {0..<49} \<union> {49, 51}"
    by (simp add: rune_boundaries_def set_offsets_replicate utf8_rune_def)
  have m1: "json_string (replicate 49 0x61 @ [0xC3]) = replicate 49 0x61 @ [0xEF, 0xBF, 0xBD]"
    by (simp add: json_string_ascii_append list_all_length) (simp add: json_string.simps rune_len_def)
  have m2: "json_string [0xA9] = [0xEF, 0xBF, 0xBD]"
    by (simp add: json_string.simps rune_len_def)
  have fr: "fragments_of (written (sendContentEvent fresh_ids_env (utf8 (replicate 49 0x61 @ [0xE9])) (init_state 0 0)))
       = [replicate 49 0x61 @ [0xEF, 0xBF, 0xBD], [0xEF, 0xBF, 0xBD]]"
    by (simp add: fragments_sendContentEvent sl m1 m2)
  have "length (concat [replicate 49 (0x61 :: byte) @ [0xEF, 0xBF, 0xBD], [0xEF, 0xBF, 0xBD]]) = 55"
    by simp
  moreover have "length (utf8 (replicate 49 0x61 @ [0xE9])) = 51"
    by (simp add: utf8_def utf8_rune_def length_concat)
  ultimately have ne: "concat [replicate 49 (0x61 :: byte) @ [0xEF, 0xBF, 0xBD], [0xEF, 0xBF, 0xBD]]
       \<noteq> utf8 (replicate 49 0x61 @ [0xE9])"
    by (metis numeral_eq_iff semiring_norm(87,88,89) num.inject(1,2) num.distinct(1,2,5))
  show ?thesis
    using sl rb fr ne by (simp add: fragment_boundaries_def)
qed

text \<open>
  Claim C2 (all frames of one stream carry the same id). In the flow of the reasoning
  events guide every helper calls \<open>generateChunkID()\<close> for the frame it builds, so the
  j-th frame carries the marshalled value of the j-th call (lemma \<open>cids_new_code_flow\<close>). With a
  generator that numbers its calls, the six frames of one stream (Securing, Protected,
  Waiting, Restoring, one content frame, the terminal frame) carry six different ids.
  In \<open>handleChatCompletion\<close> the id is generated once and every frame repeats it
  (lemma \<open>cids_handleChatCompletion\<close>).
\<close>

theorem new_code_flow_fresh_id_per_frame:
  "map cid (frames_of (written (snd
      (new_code_flow fresh_ids_env True 1 (ok_completion (ascii ''Hi'')) id (init_state 0 0)))))
     = [ascii ''chatcmpl-0'', ascii ''chatcmpl-1'', ascii ''chatcmpl-2'', ascii ''chatcmpl-3'',
        ascii ''chatcmpl-4'', ascii ''chatcmpl-5'']"
proof -
  have sl: "content_slices (ascii ''Hi'') 0 = [ascii ''Hi'']"
    by (simp add: content_slices.simps slice_def ascii_def)
  have "length (map cdelta (frames_of (written (snd
      (new_code_flow fresh_ids_env True 1 (ok_completion (ascii ''Hi'')) id (init_state 0 0)))))) = 6"
    by (simp only: deltas_new_code_flow) (simp add: sl ok_completion_def)
  then have n: "length (map cid (frames_of (written (snd
      (new_code_flow fresh_ids_env True 1 (ok_completion (ascii ''Hi'')) id (init_state 0 0)))))) = 6"
    by simp
  have "id_calls (snd (new_code_flow fresh_ids_env True 1 (ok_completion (ascii ''Hi'')) id (init_state 0 0))) = 6"
    using n by (simp only: cids_new_code_flow) simp
  then have "map cid (frames_of (written (snd
      (new_code_flow fresh_ids_env True 1 (ok_completion (ascii ''Hi'')) id (init_state 0 0)))))
      = map (\<lambda>j. json_string (generateChunkID fresh_ids_env j)) [0 ..< 6]"
    by (simp only: cids_new_code_flow)
  also have "\<dots> = [ascii ''chatcmpl-0'', ascii ''chatcmpl-1'', ascii ''chatcmpl-2'', ascii ''chatcmpl-3'',
        ascii ''chatcmpl-4'', ascii ''chatcmpl-5'']"
    by (simp add: fresh_ids_env_def upt_conv_Cons json_string_numbered_id del: upt_Suc)
      (simp add: itoa_digit ascii_def)
  finally show ?thesis .
qed

text \<open>
  Claim C3, as stated, fails for \<open>handleChatCompletion\<close>: its frames have no
  \<open>finish_reason\<close> field at all, and the stream ends with the sentinel directly after
  the content frame. Example: one finding, answer \<open>Hi\<close>.
\<close>

theorem handleChatCompletion_no_finish_reason:
  "filter has_finish_reason
     (frames_of (written (handleChatCompletion (ascii ''abc123'') True 1 (ascii ''Hi'') id (init_state 0 0)))) = []
   \<and> last (written (handleChatCompletion (ascii ''abc123'') True 1 (ascii ''Hi'') id (init_state 0 0)))
       = DoneSentinel"
  by (simp add: handleChatCompletion_def Let_def)

text \<open>
  Claim C3 (exactly one frame has a non-null \<open>finish_reason\<close>, and it is the last frame,
  right before the end sentinel), amended. Whenever the flow of the reasoning events guide
  runs to its end on a fresh response, exactly one of its frames has a non-null
  \<open>finish_reason\<close>; what was written ends with that frame, whose \<open>finish_reason\<close> is
  \<open>stop\<close>, followed by the sentinel \<open>data: [DONE]\<close>. \<open>handleChatCompletion\<close> writes no
  frame with a \<open>finish_reason\<close>.
\<close>

theorem finish_reason_only_on_terminal_frame:
  assumes "written st0 = []"
  shows "(new_code_flow E has_flusher pii_len call deobfuscate st0 = (Returned, st) \<longrightarrow>
            length (filter has_finish_reason (frames_of (written st))) = 1
          \<and> (\<exists>pre c. written st = pre @ [Data c, DoneSentinel]
                \<and> cfinish_reason c = Val (ascii ''stop'')))
       \<and> filter has_finish_reason
            (frames_of (written (handleChatCompletion generatedID True pii_count llmResponse deobfuscate2 st0))) = []"
proof (intro conjI impI)
  assume run: "new_code_flow E has_flusher pii_len call deobfuscate st0 = (Returned, st)"
  then obtain content where fl: has_flusher and resp: "response call = Some content"
    using new_code_flow_Returned by blast
  define st5 where "st5 =
    sendReasoningEvent E restoring_msg (sendReasoningEvent E waiting_msg
      (if pii_len > 0
       then sendReasoningEvent E (protected_msg pii_len) (sendReasoningEvent E securing_msg (sse_headers st0))
       else sendReasoningEvent E securing_msg (sse_headers st0)))"
  have st: "st = sendDoneEvent E (sendContentEvent_from E (deobfuscate content) 0 st5)"
    using run fl resp by (simp add: new_code_flow_def Let_def st5_def sendContentEvent_def)
  obtain cs where cs:
    "written (sendContentEvent_from E (deobfuscate content) 0 st5) = written st5 @ map Data cs"
    "list_all (\<lambda>c. cfinish_reason c = Null) cs"
    using sendContentEvent_from_frames by blast
  have nofin: "filter has_finish_reason (frames_of (written st5)) = []"
    using assms by (simp add: st5_def)
  show "length (filter has_finish_reason (frames_of (written st))) = 1"
    by (simp add: st cs(1) nofin filter_finish_Null [OF cs(2)])
  have "written st = (written st5 @ map Data cs)
          @ [Data (mk_chunk E (sendContentEvent_from E (deobfuscate content) 0 st5) EmptyDelta (Val (ascii ''stop''))),
             DoneSentinel]"
    by (simp add: st cs(1))
  moreover have "cfinish_reason (mk_chunk E (sendContentEvent_from E (deobfuscate content) 0 st5) EmptyDelta
                   (Val (ascii ''stop''))) = Val (ascii ''stop'')"
    by simp
  ultimately show "\<exists>pre c. written st = pre @ [Data c, DoneSentinel] \<and> cfinish_reason c = Val (ascii ''stop'')"
    by blast
next
  show "filter has_finish_reason
          (frames_of (written (handleChatCompletion generatedID True pii_count llmResponse deobfuscate2 st0))) = []"
    using assms by (simp add: handleChatCompletion_def Let_def)
qed

text \<open>The hypotheses of the theorem hold for a stream with one finding and the answer \<open>Hi\<close>.\<close>

theorem finish_reason_only_on_terminal_frame_witness:
  "written (init_state 0 0) = []
   \<and> fst (new_code_flow fresh_ids_env True 1 (ok_completion (ascii ''Hi'')) id (init_state 0 0)) = Returned
   \<and> length (filter has_finish_reason (frames_of (written (snd
        (new_code_flow fresh_ids_env True 1 (ok_completion (ascii ''Hi'')) id (init_state 0 0)))))) = 1
   \<and> (\<exists>pre c. written (snd (new_code_flow fresh_ids_env True 1 (ok_completion (ascii ''Hi'')) id (init_state 0 0)))
                 = pre @ [Data c, DoneSentinel]
              \<and> cfinish_reason c = Val (ascii ''stop''))
   \<and> filter has_finish_reason
        (frames_of (written (handleChatCompletion (ascii ''abc123'') True 1 (ascii ''Hi'') id (init_state 0 0)))) = []"
proof -
  have h: "written (init_state 0 0) = []"
    by simp
  have r: "new_code_flow fresh_ids_env True 1 (ok_completion (ascii ''Hi'')) id (init_state 0 0)
         = (Returned, snd (new_code_flow fresh_ids_env True 1 (ok_completion (ascii ''Hi'')) id (init_state 0 0)))"
    by (simp add: new_code_flow_def Let_def ok_completion_def)
  from finish_reason_only_on_terminal_frame [OF h, of fresh_ids_env True 1 "ok_completion (ascii ''Hi'')" id
      "snd (new_code_flow fresh_ids_env True 1 (ok_completion (ascii ''Hi'')) id (init_state 0 0))"
      "ascii ''abc123''" 1 "ascii ''Hi''" id] r h
  show ?thesis
    by (simp add: new_code_flow_def Let_def ok_completion_def)
qed



text \<open>
  Claim C6 (after a failed completion call: no Restoring frame, no content frames, the
  error status frame and then the terminal frame). The flow of the reasoning events guide
  assigns \<open>err\<close> and never reads it. With a failed call that returned a \<open>nil\<close>
  response, the frames are Securing, Protected, Waiting and Restoring, and the handler then
  panics on \<open>response.Content\<close>: no terminal frame and no sentinel are written. With a
  failed call that returned an empty response, the frames are the same four followed by the
  terminal frame. In both runs the frame after Waiting is Restoring, and no frame carries
  the error status text (lemma \<open>no_error_frame\<close> above: none ever does).
\<close>

theorem failed_completion_still_restores:
  "fst (new_code_flow fresh_ids_env True 1 failed_nil id (init_state 0 0)) = Panicked
   \<and> map cdelta (frames_of (written (snd (new_code_flow fresh_ids_env True 1 failed_nil id (init_state 0 0)))))
       = [ReasoningContent securing_msg, ReasoningContent (protected_msg 1),
          ReasoningContent waiting_msg, ReasoningContent restoring_msg]
   \<and> fst (new_code_flow fresh_ids_env True 1 failed_empty id (init_state 0 0)) = Returned
   \<and> map cdelta (frames_of (written (snd (new_code_flow fresh_ids_env True 1 failed_empty id (init_state 0 0)))))
       = [ReasoningContent securing_msg, ReasoningContent (protected_msg 1),
          ReasoningContent waiting_msg, ReasoningContent restoring_msg, EmptyDelta]"
proof -
  have "content_slices [] 0 = []"
    by (simp add: content_slices.simps)
  then show ?thesis
    unfolding deltas_new_code_flow
    by (simp add: new_code_flow_def Let_def failed_nil_def failed_empty_def)
qed

text \<open>
  Claim C7, as stated, fails: a writer without a flusher is answered by
  \<open>handleChatCompletion\<close> with status 500 and a line of plain text, not with a buffered
  JSON object.
\<close>

theorem no_flusher_http_500_example:
  "status (handleChatCompletion (ascii ''abc123'') False 1 (ascii ''Hi'') id (init_state 0 0)) = Some 500
   \<and> written (handleChatCompletion (ascii ''abc123'') False 1 (ascii ''Hi'') id (init_state 0 0))
       = [PlainText (ascii ''Streaming not supported'' @ [0x0A])]"
  by (simp add: handleChatCompletion_def Let_def http_Error_def header_set_def ascii_def)

text \<open>
  Claim C7 (a transport without a flush primitive is detected before any frame is written
  and served in buffered mode), amended. When the writer has no flusher,
  \<open>handleChatCompletion\<close> writes no frame: it answers with status 500, content type
  \<open>text/plain\<close> and the body \<open>Streaming not supported\<close>, and returns.
\<close>

theorem no_flusher_http_500:
  "status (handleChatCompletion generatedID False pii_count llmResponse deobfuscate (init_state a b)) = Some 500
   \<and> written (handleChatCompletion generatedID False pii_count llmResponse deobfuscate (init_state a b))
       = [PlainText (ascii ''Streaming not supported'' @ [0x0A])]
   \<and> frames_of (written (handleChatCompletion generatedID False pii_count llmResponse deobfuscate (init_state a b))) = []
   \<and> headers (handleChatCompletion generatedID False pii_count llmResponse deobfuscate (init_state a b))
        (ascii ''Content-Type'') = Some (ascii ''text/plain; charset=utf-8'')"
  by (simp add: handleChatCompletion_def Let_def http_Error_def header_set_def sse_headers_def ascii_def)

section \<open>Properties of the plugins\<close>

subsection \<open>resolveToken\<close>

lemma resolveToken_cases:
  "resolveToken parse fs =
     Inr (case token_file_contents fs of
            Some t \<Rightarrow> Some t
          | None \<Rightarrow>
              (case auth_json_dymium_key parse fs of
                 Some (JString k) \<Rightarrow> if trim k \<noteq> [] then Some (trim k) else None
               | _ \<Rightarrow> None))"
proof -
  have nonblank: "trim k \<noteq> [] \<Longrightarrow> k \<noteq> []" for k
    by (auto simp: trim_def)
  show ?thesis
    by (auto simp: resolveToken_def catch_all_def token_file_block_def auth_json_block_def
        readFileSync_def JSON_parse_def token_file_contents_def auth_json_dymium_key_def Let_def
        dest: nonblank split: option.splits sum.splits json.splits)
qed


lemma js_not_Nil [simp]: "js (c # s) \<noteq> []"
  by (simp add: js_def)

lemma texts_differ [simp]: "auth_text_key2 \<noteq> auth_text_blank" "auth_text_blank \<noteq> auth_text_key2"
  by (simp_all add: auth_text_key2_def auth_text_blank_def js_def)

lemma trim_examples:
  "trim (js '' tok-1'' @ [0x0A]) = js ''tok-1''" "trim (js '' key-2 '') = js ''key-2''" "trim (js '' '') = []"
  by (simp_all add: trim_def is_white_space_def js_def)

lemma sources_examples:
  "token_file_contents fs_with_token = Some (js ''tok-1'')"
  "auth_json_dymium_key sample_parse fs_with_token = Some (JString (js '' key-2 ''))"
  "token_file_contents fs_auth_only = None"
  "auth_json_dymium_key sample_parse fs_auth_only = Some (JString (js '' key-2 ''))"
  "token_file_contents fs_blank_key = None"
  "auth_json_dymium_key sample_parse fs_blank_key = Some (JString (js '' ''))"
  "token_file_contents fs_empty = None"
  "auth_json_dymium_key sample_parse fs_empty = None"
  by (simp_all add: token_file_contents_def auth_json_dymium_key_def fs_with_token_def fs_auth_only_def
      fs_blank_key_def fs_empty_def sample_parse_def trim_examples)

subsection \<open>The Headers class\<close>



lemma lowercase_idem [simp]: "lowercase (lowercase s) = lowercase s"
proof -
  have "lower_unit (lower_unit c) = lower_unit c" for c
  proof (cases "0x41 \<le> c \<and> c \<le> 0x5A")
    case True
    then have "\<not> (c + 0x20 \<le> 0x5A)"
      by (auto simp: word_le_nat_alt unat_word_ariths) 
    with True show ?thesis by (simp add: lower_unit_def)
  next
    case False
    then show ?thesis by (auto simp: lower_unit_def)
  qed
  then show ?thesis by (simp add: lowercase_def)
qed


lemma Headers_fill_cases:
  "Headers_fill kvs hs = (if valid_headers kvs then Inr (hs @ stored kvs) else Inl TypeError)"
proof (induction kvs arbitrary: hs)
  case Nil
  then show ?case by (simp add: valid_headers_def stored_def)
next
  case (Cons a kvs)
  obtain k v where a: "a = (k, v)" by (cases a)
  show ?case
  proof (cases "header_name_ok k \<and> header_value_ok (normalize_value v)")
    case True
    then show ?thesis
      using Cons.IH [of "hs @ [(lowercase k, normalize_value v)]"]
      by (simp add: a Headers_append_def valid_headers_def stored_def)
  next
    case False
    then show ?thesis
      by (auto simp: a Headers_append_def valid_headers_def)
  qed
qed

lemma Headers_fill_valid:
  "valid_headers kvs \<Longrightarrow> Headers_fill kvs hs = Inr (hs @ stored kvs)"
  by (simp add: Headers_fill_cases)

lemma Headers_fill_invalid:
  "\<not> valid_headers kvs \<Longrightarrow> Headers_fill kvs hs = Inl TypeError"
  by (simp add: Headers_fill_cases)

lemma Headers_fill_keys:
  "Headers_fill kvs hs = Inr hs' \<Longrightarrow> fst ` set hs' = fst ` set hs \<union> lowercase ` fst ` set kvs"
proof (cases "valid_headers kvs")
  case True
  assume "Headers_fill kvs hs = Inr hs'"
  with True have "hs' = hs @ stored kvs" by (simp add: Headers_fill_valid)
  then show ?thesis by (simp add: stored_def image_Un image_image case_prod_beta)
next
  case False
  assume "Headers_fill kvs hs = Inr hs'"
  with False show ?thesis by (simp add: Headers_fill_invalid)
qed




lemma lowercase_Authorization [simp]: "lowercase (js ''Authorization'') = js ''authorization''"
  by (simp add: lowercase_def lower_unit_def js_def)






subsection \<open>The fetch wrapper of the auth loader\<close>

lemma Headers_new_caller:
  "Headers_new (case init of None \<Rightarrow> None | Some i \<Rightarrow> init_headers i)
     = (if valid_headers (caller_headers init) then Inr (stored (caller_headers init)) else Inl TypeError)"
  by (auto simp: Headers_new_def caller_headers_def Headers_fill_valid Headers_fill_invalid
      valid_headers_def stored_def split: option.splits)





subsection \<open>The headers object of the HTTP/1.1 request\<close>

lemma keys_obj_set [simp]: "fst ` set (obj_set k v obj) = insert k (fst ` set obj)"
proof (induction obj)
  case Nil
  then show ?case by simp
next
  case (Cons p obj)
  obtain k' v' where p: "p = (k', v')" by (cases p)
  show ?case
  proof (cases "k' = k")
    case True
    then show ?thesis by (simp add: p)
  next
    case False
    then show ?thesis using Cons.IH by (simp add: p) blast
  qed
qed

lemma keys_obj_assign_all [simp]: "fst ` set (obj_assign_all kvs obj) = fst ` set kvs \<union> fst ` set obj"
proof (induction kvs arbitrary: obj)
  case Nil
  then show ?case by simp
next
  case (Cons p kvs)
  obtain k v where p: "p = (k, v)" by (cases p)
  show ?case by (simp add: p Cons.IH)
qed

lemma obj_set_fresh: "k \<notin> fst ` set obj \<Longrightarrow> obj_set k v obj = obj @ [(k, v)]"
  by (induction obj) auto

lemma filter_obj_set_other:
  "lowercase k \<noteq> lowercase n
     \<Longrightarrow> filter (\<lambda>(k', v'). lowercase k' = lowercase n) (obj_set k v obj)
         = filter (\<lambda>(k', v'). lowercase k' = lowercase n) obj"
  by (induction obj) auto

lemma sent_header_obj_set_other:
  "lowercase k \<noteq> lowercase n \<Longrightarrow> sent_header (obj_set k v obj) n = sent_header obj n"
  by (simp add: sent_header_def filter_obj_set_other)

lemma sent_header_snoc:
  "lowercase k = lowercase n \<Longrightarrow> sent_header (obj @ [(k, v)]) n = Some v"
proof -
  assume "lowercase k = lowercase n"
  then have "filter (\<lambda>(k', v'). lowercase k' = lowercase n) (obj @ [(k, v)])
               = filter (\<lambda>(k', v'). lowercase k' = lowercase n) obj @ [(k, v)]"
    by simp
  then show ?thesis
    by (cases "filter (\<lambda>(k', v'). lowercase k' = lowercase n) obj") (simp_all add: sent_header_def)
qed

lemma sent_header_obj_set_fresh:
  "k \<notin> fst ` set obj \<Longrightarrow> lowercase k = lowercase n \<Longrightarrow> sent_header (obj_set k v obj) n = Some v"
  by (simp add: obj_set_fresh sent_header_snoc)

lemma sent_header_absent:
  "lowercase n \<notin> lowercase ` fst ` set obj \<Longrightarrow> sent_header obj n = None"
proof -
  assume a: "lowercase n \<notin> lowercase ` fst ` set obj"
  have "filter (\<lambda>(k, v). lowercase k = lowercase n) obj = []"
    unfolding filter_empty_conv
  proof
    fix p assume "p \<in> set obj"
    then have "lowercase (fst p) \<in> lowercase ` fst ` set obj" by blast
    with a have "lowercase (fst p) \<noteq> lowercase n" by metis
    then show "\<not> (case p of (k, v) \<Rightarrow> lowercase k = lowercase n)"
      by (cases p) simp
  qed
  then show ?thesis by (simp add: sent_header_def)
qed

lemma keys_Headers_entries [simp]: "fst ` set (Headers_entries hs) = fst ` set hs"
  by (simp add: Headers_entries_def image_image)

lemma keys_Headers_new:
  "Headers_new (Some kvs) = Inr hs \<Longrightarrow> fst ` set hs = lowercase ` fst ` set kvs"
  using Headers_fill_keys [of kvs "[]" hs] by (simp add: Headers_new_def)

lemma lowercase_names:
  "lowercase (js ''Host'') = js ''host''"
  "lowercase (js ''Connection'') = js ''connection''"
  "lowercase (js ''Content-Length'') = js ''content-length''"
  "lowercase (js ''Content-Type'') = js ''content-type''"
  "lowercase (js ''Accept'') = js ''accept''"
  "lowercase (js ''X-GhostLLM-App'') = js ''x-ghostllm-app''"
  by (simp_all add: lowercase_def lower_unit_def js_def)

lemma lowercase_not_capitalised:
  "lowercase s \<noteq> js ''Host''" "lowercase s \<noteq> js ''Connection''" "lowercase s \<noteq> js ''Content-Length''"
proof -
  have "lowercase (js ''Host'') \<noteq> js ''Host''" "lowercase (js ''Connection'') \<noteq> js ''Connection''"
       "lowercase (js ''Content-Length'') \<noteq> js ''Content-Length''"
    by (simp_all add: lowercase_names) (simp_all add: js_def)
  then show "lowercase s \<noteq> js ''Host''" "lowercase s \<noteq> js ''Connection''"
    "lowercase s \<noteq> js ''Content-Length''"
    by (metis lowercase_idem)+
qed

lemma capitalised_not_lowercase:
  "js ''Host'' \<noteq> lowercase s" "js ''Connection'' \<noteq> lowercase s" "js ''Content-Length'' \<noteq> lowercase s"
  using lowercase_not_capitalised [of s] by auto

lemma names_distinct:
  "js ''host'' \<noteq> js ''connection''" "js ''host'' \<noteq> js ''content-length''"
  "js ''connection'' \<noteq> js ''content-length''" "js ''connection'' \<noteq> js ''host''"
  "js ''content-length'' \<noteq> js ''host''" "js ''content-length'' \<noteq> js ''connection''"
  "js ''x-ghostllm-app'' \<noteq> js ''host''" "js ''x-ghostllm-app'' \<noteq> js ''connection''"
  "js ''x-ghostllm-app'' \<noteq> js ''content-length''" "js ''x-ghostllm-app'' \<noteq> js ''content-type''"
  "js ''x-ghostllm-app'' \<noteq> js ''accept''" "js ''x-ghostllm-app'' \<noteq> js ''authorization''"
  "js ''Host'' \<noteq> js ''Connection''" "js ''Connection'' \<noteq> js ''Host''"
  "js ''Host'' \<noteq> js ''Authorization''" "js ''Host'' \<noteq> js ''Content-Type''" "js ''Host'' \<noteq> js ''Accept''"
  "js ''Connection'' \<noteq> js ''Authorization''" "js ''Connection'' \<noteq> js ''Content-Type''"
  "js ''Connection'' \<noteq> js ''Accept''"
  by (simp_all add: js_def)

text \<open>The keys of the object that \<open>dymiumFetch\<close> hands to \<open>http11Request\<close>.\<close>

lemma keys_dymium_headers:
  assumes "(case ih of
              None \<Rightarrow> Inr default_headers
            | Some kvs \<Rightarrow>
                (case Headers_new (Some kvs) of
                   Inl e \<Rightarrow> Inl e
                 | Inr initHeaders \<Rightarrow> Inr (obj_assign_all (Headers_entries initHeaders) default_headers)))
           = Inr headers1"
  shows "fst ` set (obj_set (js ''Authorization'') a headers1)
     \<subseteq> {js ''Authorization'', js ''Content-Type'', js ''Accept''}
        \<union> lowercase ` fst ` set (case ih of None \<Rightarrow> [] | Some kvs \<Rightarrow> kvs)"
proof (cases ih)
  case None
  with assms show ?thesis by (auto simp: default_headers_def)
next
  case (Some kvs)
  with assms obtain hs where hs: "Headers_new (Some kvs) = Inr hs"
    and h1: "headers1 = obj_assign_all (Headers_entries hs) default_headers"
    by (auto split: sum.splits)
  show ?thesis
    using keys_Headers_new [OF hs] by (auto simp: h1 Some default_headers_def)
qed

lemma http11Request_headers:
  assumes "js ''Host'' \<notin> fst ` set hdrs" "js ''Connection'' \<notin> fst ` set hdrs"
  shows "sent_header (req_headers (http11Request P u m hdrs body)) (js ''Host'') = Some (hostname u)"
    and "sent_header (req_headers (http11Request P u m hdrs body)) (js ''Connection'') = Some (js ''close'')"
    and "(js ''Host'', hostname u) \<in> set (req_headers (http11Request P u m hdrs body))"
    and "(js ''Connection'', js ''close'') \<in> set (req_headers (http11Request P u m hdrs body))"
    and "lowercase ` fst ` set (req_headers (http11Request P u m hdrs body))
           \<subseteq> lowercase ` fst ` set hdrs \<union> {js ''host'', js ''connection'', js ''content-length''}"
proof -
  let ?h1 = "obj_set (js ''Connection'') (js ''close'') (obj_set (js ''Host'') (hostname u) hdrs)"
  have h1: "?h1 = hdrs @ [(js ''Host'', hostname u), (js ''Connection'', js ''close'')]"
    using assms by (simp add: obj_set_fresh names_distinct)
  have host1: "sent_header ?h1 (js ''Host'') = Some (hostname u)"
    using assms by (simp add: sent_header_obj_set_other sent_header_obj_set_fresh lowercase_names names_distinct)
  have conn1: "sent_header ?h1 (js ''Connection'') = Some (js ''close'')"
    using assms by (simp add: sent_header_obj_set_fresh names_distinct)
  have rh: "req_headers (http11Request P u m hdrs body)
      = (if string_truthy body
         then obj_set (js ''Content-Length'') (js_itoa (int (byteLength P (the body)))) ?h1 else ?h1)"
    by (simp add: http11Request_def Let_def)
  show "sent_header (req_headers (http11Request P u m hdrs body)) (js ''Host'') = Some (hostname u)"
    using host1 by (simp add: rh sent_header_obj_set_other lowercase_names names_distinct)
  show "sent_header (req_headers (http11Request P u m hdrs body)) (js ''Connection'') = Some (js ''close'')"
    using conn1 by (simp add: rh sent_header_obj_set_other lowercase_names names_distinct)
  have cl: "js ''Content-Length'' \<notin> fst ` set ?h1 \<Longrightarrow>
      obj_set (js ''Content-Length'') v ?h1 = ?h1 @ [(js ''Content-Length'', v)]" for v
    by (rule obj_set_fresh)
  have mem: "(k, w) \<in> set obj \<Longrightarrow> k \<noteq> k' \<Longrightarrow> (k, w) \<in> set (obj_set k' v obj)" for k w k' v and obj :: jsobject
    by (induction obj) auto
  have ne: "js ''Host'' \<noteq> js ''Content-Length''" "js ''Connection'' \<noteq> js ''Content-Length''"
    by (simp_all add: js_def)
  show "(js ''Host'', hostname u) \<in> set (req_headers (http11Request P u m hdrs body))"
    by (simp add: rh h1 [symmetric]) (simp add: h1 mem ne)
  show "(js ''Connection'', js ''close'') \<in> set (req_headers (http11Request P u m hdrs body))"
    by (simp add: rh h1 [symmetric]) (simp add: h1 mem ne)
  show "lowercase ` fst ` set (req_headers (http11Request P u m hdrs body))
           \<subseteq> lowercase ` fst ` set hdrs \<union> {js ''host'', js ''connection'', js ''content-length''}"
    by (auto simp: rh lowercase_names)
qed

subsection \<open>The session trackers\<close>








lemma event_types_differ:
  "js ''session.created'' \<noteq> js ''session.status''" "js ''session.created'' \<noteq> js ''session.idle''"
  "js ''session.created'' \<noteq> js ''session.error''" "js ''session.idle'' \<noteq> js ''session.status''"
  "js ''session.status'' \<noteq> js ''session.created''" "js ''session.status'' \<noteq> js ''session.idle''"
  "js ''session.status'' \<noteq> js ''session.error''"
  "js ''session.created'' \<noteq> js ''message.part.updated''"
  by (simp_all add: js_def)


lemma logging_status_step:
  "logging_step P stringify \<lparr>request = r, at_time = t, the_call = status_event\<rparr> st
     = (Inr [js ''Session status: busy''], st\<lparr>lastStatus := JString (js ''busy'')\<rparr>)"
  by (simp add: logging_step_def logging_event_def status_event_def Let_def template_def)
     (simp add: js_def)



lemma http11_created_step:
  "http11_step P stringify \<lparr>request = r, at_time = t, the_call = EventCall created_event\<rparr> st
     = (Inr [js ''Event: session.created''], st)"
  by (simp add: http11_step_def http11_event_def created_event_def Let_def event_types_differ
      js_startsWith_def)
     (simp add: js_def)


subsection \<open>The claims about the plugins\<close>

text \<open>
  Claim C8, as stated, fails where \<open>dymium.key\<close> is a string that is not empty but
  blank: with no token file and the key \<open>" "\<close>, the field is a non-empty string, and
  \<open>resolveToken\<close> returns \<open>null\<close>, not the trimmed key.
\<close>

theorem resolveToken_blank_key:
  "token_file_contents fs_blank_key = None
   \<and> auth_json_dymium_key sample_parse fs_blank_key = Some (JString (js '' ''))
   \<and> js '' '' \<noteq> []
   \<and> resolveToken sample_parse fs_blank_key = Inr None
   \<and> resolveToken sample_parse fs_blank_key \<noteq> Inr (Some (trim (js '' '')))"
  by (simp add: resolveToken_cases sources_examples trim_examples)

text \<open>
  Claim C8 (\<open>resolveToken\<close> never raises; token file first, then \<open>dymium.key\<close> of
  \<open>auth.json\<close>, then \<open>null\<close>), amended in one word: the key counts when it is a string
  that is not empty after trimming. For every state of the two files and every parser,
  \<open>resolveToken\<close> returns a value and raises nothing; it returns the trimmed contents
  of the token file when the file can be read and is not blank, whatever \<open>auth.json\<close>
  holds; otherwise the trimmed \<open>dymium.key\<close> of \<open>auth.json\<close> when that is a string
  that is not blank; otherwise \<open>null\<close>.
\<close>

theorem resolveToken_contract:
  "(\<exists>r. resolveToken parse fs = Inr r)
   \<and> (\<forall>t. token_file_contents fs = Some t \<longrightarrow> resolveToken parse fs = Inr (Some t))
   \<and> (\<forall>k. token_file_contents fs = None \<and> auth_json_dymium_key parse fs = Some (JString k) \<and> trim k \<noteq> []
          \<longrightarrow> resolveToken parse fs = Inr (Some (trim k)))
   \<and> (token_file_contents fs = None
        \<and> \<not> (\<exists>k. auth_json_dymium_key parse fs = Some (JString k) \<and> trim k \<noteq> [])
          \<longrightarrow> resolveToken parse fs = Inr None)"
  by (auto simp: resolveToken_cases split: option.splits json.splits)

text \<open>
  Each case occurs: a token file next to an \<open>auth.json\<close> with a key, an \<open>auth.json\<close>
  alone, and neither file.
\<close>

theorem resolveToken_contract_witness:
  "token_file_contents fs_with_token = Some (js ''tok-1'')
   \<and> resolveToken sample_parse fs_with_token = Inr (Some (js ''tok-1''))
   \<and> token_file_contents fs_auth_only = None
   \<and> auth_json_dymium_key sample_parse fs_auth_only = Some (JString (js '' key-2 ''))
   \<and> trim (js '' key-2 '') \<noteq> []
   \<and> resolveToken sample_parse fs_auth_only = Inr (Some (js ''key-2''))
   \<and> token_file_contents fs_empty = None
   \<and> auth_json_dymium_key sample_parse fs_empty = None
   \<and> resolveToken sample_parse fs_empty = Inr None"
  using resolveToken_contract [of sample_parse fs_with_token]
    resolveToken_contract [of sample_parse fs_auth_only]
    resolveToken_contract [of sample_parse fs_empty]
  by (simp add: sources_examples trim_examples)



lemma valid_examples:
  "valid_headers (caller_headers (Some caller_init))"
  "valid_headers (caller_headers (Some padded_init))"
  "\<not> valid_headers (caller_headers (Some bad_name_init))"
  by (simp_all add: valid_headers_def caller_headers_def caller_init_def padded_init_def bad_name_init_def
      header_name_ok_def is_tchar_def header_value_ok_def normalize_value_def is_http_space_def js_def)





text \<open>
  Claim C10 (the request that \<open>dymiumFetch\<close> sends through \<open>http11Request\<close>). Whenever
  \<open>dymiumFetch\<close> sends a request, the \<open>headers\<close> object given to Node holds
  \<open>Host\<close> with the host name of the URL, which has no port, and \<open>Connection\<close> with
  \<open>close\<close>; these are the values Node sends for the two headers, whatever the caller
  supplied under those names in any spelling. No \<open>X-GhostLLM-App\<close> header is sent
  unless the caller supplied one: the code adds none.
\<close>

theorem dymiumFetch_host_connection:
  "dymiumFetch P fs input init = Inr req \<longrightarrow>
     (\<exists>u. input_url P input = Inr u
        \<and> sent_header (req_headers req) (js ''Host'') = Some (hostname u)
        \<and> sent_header (req_headers req) (js ''Connection'') = Some (js ''close'')
        \<and> (js ''Host'', hostname u) \<in> set (req_headers req)
        \<and> (js ''Connection'', js ''close'') \<in> set (req_headers req)
        \<and> (js ''x-ghostllm-app'' \<notin> lowercase ` fst ` set (caller_headers init)
              \<longrightarrow> sent_header (req_headers req) (js ''X-GhostLLM-App'') = None))"
proof
  assume run: "dymiumFetch P fs input init = Inr req"
  then obtain token u where tok: "getDymiumToken P fs = Some token" and u: "input_url P input = Inr u"
    by (auto simp: dymiumFetch_def split: option.splits sum.splits)
  define ih where "ih = (case init of None \<Rightarrow> None | Some i \<Rightarrow> init_headers i)"
  from run tok u obtain headers1 where
    h1: "(case ih of
            None \<Rightarrow> Inr default_headers
          | Some kvs \<Rightarrow>
              (case Headers_new (Some kvs) of
                 Inl e \<Rightarrow> Inl e
               | Inr initHeaders \<Rightarrow> Inr (obj_assign_all (Headers_entries initHeaders) default_headers)))
         = Inr headers1"
    unfolding ih_def by (auto simp: dymiumFetch_def split: sum.splits)
  define hdrs where "hdrs = obj_set (js ''Authorization'') (js ''Bearer '' @ template P token) headers1"
  define body where "body =
     (if body_truthy (case init of None \<Rightarrow> None | Some i \<Rightarrow> init_body i)
      then Some (body_to_string P (the (case init of None \<Rightarrow> None | Some i \<Rightarrow> init_body i)))
      else None)"
  have req: "req = http11Request P u (method_or_GET init) hdrs body"
    using run tok u h1 by (simp add: dymiumFetch_def Let_def hdrs_def ih_def body_def)
  have keys: "fst ` set hdrs \<subseteq> {js ''Authorization'', js ''Content-Type'', js ''Accept''}
        \<union> lowercase ` fst ` set (caller_headers init)"
    unfolding hdrs_def caller_headers_def ih_def [symmetric] by (rule keys_dymium_headers [OF h1])
  have "js ''Host'' \<notin> {js ''Authorization'', js ''Content-Type'', js ''Accept''}
        \<union> lowercase ` fst ` set (caller_headers init)"
       "js ''Connection'' \<notin> {js ''Authorization'', js ''Content-Type'', js ''Accept''}
        \<union> lowercase ` fst ` set (caller_headers init)"
    by (auto simp: names_distinct capitalised_not_lowercase)
  with keys have fresh: "js ''Host'' \<notin> fst ` set hdrs" "js ''Connection'' \<notin> fst ` set hdrs"
    by blast+
  note h = http11Request_headers [OF fresh, where P = P and u = u and m = "method_or_GET init" and body = body]
  have x: "sent_header (req_headers req) (js ''X-GhostLLM-App'') = None"
    if "js ''x-ghostllm-app'' \<notin> lowercase ` fst ` set (caller_headers init)"
  proof (rule sent_header_absent)
    have "lowercase ` fst ` set hdrs
            \<subseteq> {js ''authorization'', js ''content-type'', js ''accept''}
               \<union> lowercase ` fst ` set (caller_headers init)"
    proof
      fix x assume "x \<in> lowercase ` fst ` set hdrs"
      then obtain k where k: "k \<in> fst ` set hdrs" "x = lowercase k" by blast
      with keys consider "k \<in> {js ''Authorization'', js ''Content-Type'', js ''Accept''}"
        | "k \<in> lowercase ` fst ` set (caller_headers init)" by blast
      then show "x \<in> {js ''authorization'', js ''content-type'', js ''accept''}
               \<union> lowercase ` fst ` set (caller_headers init)"
      proof cases
        case 1
        then show ?thesis using k(2) by (auto simp: lowercase_names)
      next
        case 2
        then have "lowercase k = k" by auto
        with 2 k(2) show ?thesis by simp
      qed
    qed
    with h(5) have "lowercase ` fst ` set (req_headers req)
            \<subseteq> {js ''host'', js ''connection'', js ''content-length'',
                js ''authorization'', js ''content-type'', js ''accept''}
               \<union> lowercase ` fst ` set (caller_headers init)"
      unfolding req by blast
    moreover have "js ''x-ghostllm-app'' \<notin> {js ''host'', js ''connection'', js ''content-length'',
                js ''authorization'', js ''content-type'', js ''accept''}
               \<union> lowercase ` fst ` set (caller_headers init)"
      using that by (simp add: names_distinct)
    ultimately show "lowercase (js ''X-GhostLLM-App'') \<notin> lowercase ` fst ` set (req_headers req)"
      unfolding lowercase_names by blast
  qed
  show "\<exists>u. input_url P input = Inr u
        \<and> sent_header (req_headers req) (js ''Host'') = Some (hostname u)
        \<and> sent_header (req_headers req) (js ''Connection'') = Some (js ''close'')
        \<and> (js ''Host'', hostname u) \<in> set (req_headers req)
        \<and> (js ''Connection'', js ''close'') \<in> set (req_headers req)
        \<and> (js ''x-ghostllm-app'' \<notin> lowercase ` fst ` set (caller_headers init)
              \<longrightarrow> sent_header (req_headers req) (js ''X-GhostLLM-App'') = None)"
    using u h(1-4) x by (auto simp: req)
qed

text \<open>
  A request is sent for a caller that supplies its own \<open>Host\<close> and \<open>Connection\<close>
  headers and no \<open>X-GhostLLM-App\<close> header.
\<close>

theorem dymiumFetch_host_connection_witness:
  "(\<exists>req. dymiumFetch sample_platform fs_auth_only (InputString (href sample_url)) (Some caller_init) = Inr req
       \<and> sent_header (req_headers req) (js ''Host'') = Some (js ''llm.dymium.home'')
       \<and> sent_header (req_headers req) (js ''Connection'') = Some (js ''close'')
       \<and> sent_header (req_headers req) (js ''X-GhostLLM-App'') = None)
   \<and> (js ''Host'', js ''other.example:8080'') \<in> set (caller_headers (Some caller_init))
   \<and> (js ''Connection'', js ''keep-alive'') \<in> set (caller_headers (Some caller_init))
   \<and> js ''x-ghostllm-app'' \<notin> lowercase ` fst ` set (caller_headers (Some caller_init))"
proof -
  have tok: "getDymiumToken sample_platform fs_auth_only = Some (JString (js '' key-2 ''))"
    by (simp add: getDymiumToken_def readFileSync_def JSON_parse_def fs_auth_only_def sample_platform_def
        sample_parse_def Let_def)
  have u: "input_url sample_platform (InputString (href sample_url)) = Inr sample_url"
    by (simp add: input_url_def sample_platform_def)
  have "Headers_new (init_headers caller_init) = Inr (stored (caller_headers (Some caller_init)))"
    using Headers_new_caller [of "Some caller_init"] by (simp add: valid_examples)
  moreover have "init_headers caller_init = Some (caller_headers (Some caller_init))"
    by (simp add: caller_headers_def caller_init_def)
  ultimately have "\<exists>req. dymiumFetch sample_platform fs_auth_only (InputString (href sample_url)) (Some caller_init)
           = Inr req"
    by (simp add: dymiumFetch_def tok u Let_def)
  then obtain req where
    req: "dymiumFetch sample_platform fs_auth_only (InputString (href sample_url)) (Some caller_init) = Inr req"
    by blast
  have c: "caller_headers (Some caller_init)
      = [(js ''Authorization'', js ''Bearer stale''), (js ''Host'', js ''other.example:8080''),
         (js ''Connection'', js ''keep-alive''), (js ''X-Trace'', js ''1'')]"
    by (simp add: caller_headers_def caller_init_def)
  have x: "js ''x-ghostllm-app'' \<notin> lowercase ` fst ` set (caller_headers (Some caller_init))"
    by (simp add: c) (simp add: lowercase_def lower_unit_def js_def)
  from dymiumFetch_host_connection [of sample_platform fs_auth_only "InputString (href sample_url)"
      "Some caller_init" req] req u x
  have "sent_header (req_headers req) (js ''Host'') = Some (hostname sample_url)
       \<and> sent_header (req_headers req) (js ''Connection'') = Some (js ''close'')
       \<and> sent_header (req_headers req) (js ''X-GhostLLM-App'') = None"
    by auto
  then have "\<exists>req. dymiumFetch sample_platform fs_auth_only (InputString (href sample_url)) (Some caller_init)
                 = Inr req
       \<and> sent_header (req_headers req) (js ''Host'') = Some (js ''llm.dymium.home'')
       \<and> sent_header (req_headers req) (js ''Connection'') = Some (js ''close'')
       \<and> sent_header (req_headers req) (js ''X-GhostLLM-App'') = None"
    using req by (auto simp: sample_url_def)
  then show ?thesis
    using x by (simp add: c)
qed




end
